theory Spec2Isabelle
  imports Complex_Main "HOL-Library.Word" "HOL-Library.FSet"
begin

section \<open>Numbers\<close>

text \<open>
  The program computes with C \<open>float\<close>, \<open>int\<close>, \<open>uint8_t\<close> and \<open>unsigned long\<close>.
  \<^item> A \<open>float\<close> is the real number it holds. In the colour functions, the \<open>Vector2D\<close>
    operators, the flocking update and the elapsed time, every operation is followed by
    the rounding \<open>f32\<close> of IEEE binary32 (to nearest, ties to even), each operation
    rounded on its own, and a literal such as \<open>0.9f\<close> is \<open>f32 0.9\<close>; \<open>fmod\<close>, \<open>fabs\<close>,
    \<open>round\<close> and comparisons are exact, and \<open>sqrt\<close>, \<open>sin\<close>, \<open>cos\<close> are taken correctly
    rounded; the math functions are the ones on \<open>float\<close>, with a \<open>float\<close> result. The spawn routine's sums of small integers and hundredths, and the
    comparison of the elapsed milliseconds with the spawn interval, are kept exact.
    There is no overflow to infinity and no NaN in the model.
  \<^item> \<open>unsigned long\<close> (the millisecond clock; 32 bits on the target) is \<open>32 word\<close>, so
    subtraction and comparison wrap as in the source.
  \<^item> \<open>uint8_t\<close> is \<open>8 word\<close>; the conversion of a \<open>float\<close> to it is defined by C only when
    the truncated value fits, and is \<open>None\<close> otherwise.
  \<^item> \<open>int\<close> pixel coordinates and counts are \<open>int\<close> and \<open>nat\<close>: they stay far inside 32 bits.
\<close>

definition WIDTH :: int where
  "WIDTH = 64"

definition HEIGHT :: int where
  "HEIGHT = 32"

text \<open>Conversion of a float to an integer type truncates towards zero.\<close>

definition trunc :: "real \<Rightarrow> int" where
  "trunc a = (if 0 \<le> a then \<lfloor>a\<rfloor> else - \<lfloor>- a\<rfloor>)"

text \<open>C's \<open>round\<close>: to the nearest integer, halfway cases away from zero.\<close>

definition c_round :: "real \<Rightarrow> int" where
  "c_round a = (if 0 \<le> a then \<lfloor>a + 1 / 2\<rfloor> else - \<lfloor>- a + 1 / 2\<rfloor>)"

text \<open>
  C's \<open>fmod a b\<close> is \<open>a - n * b\<close> with \<open>n\<close> the quotient \<open>a / b\<close> truncated towards zero:
  the result has the sign of \<open>a\<close>. (The program calls it with \<open>b = 1\<close> and \<open>b = 2\<close> only.)
\<close>

definition fmod :: "real \<Rightarrow> real \<Rightarrow> real" where
  "fmod a b = a - of_int (trunc (a / b)) * b"

text \<open>
  Rounding to binary32. \<open>round_even\<close> rounds to the nearest integer, a tie to the even
  one. \<open>binade n a\<close> is the exponent \<open>e\<close> with \<open>2 ^ e \<le> a < 2 ^ (e + 1)\<close>, searched by
  halving or doubling at most \<open>n\<close> times. \<open>f32 a\<close> rounds \<open>a\<close> to a multiple of
  \<open>2 ^ (e - 23)\<close>, where \<open>e\<close> is the exponent of \<open>a\<close>, or \<open>- 126\<close> for the subnormal
  numbers below \<open>2 ^ - 126\<close>.
\<close>

definition round_even :: "real \<Rightarrow> int" where
  "round_even a =
     (let n = \<lfloor>a\<rfloor>; d = a - of_int n
      in if d < 1 / 2 then n else if 1 / 2 < d then n + 1 else if even n then n else n + 1)"

primrec binade :: "nat \<Rightarrow> real \<Rightarrow> int" where
  "binade 0 a = 0"
| "binade (Suc n) a =
     (if 2 \<le> a then binade n (a / 2) + 1 else if a < 1 then binade n (a * 2) - 1 else 0)"

definition f32 :: "real \<Rightarrow> real" where
  "f32 a =
     (if a = 0 then 0
      else
        (let e = max (binade 300 \<bar>a\<bar>) (- 126);
             q = 2 powi (e - 23)
         in of_int (round_even (a / q)) * q))"

text \<open>The cast \<open>(uint8_t) a\<close> of a float.\<close>

definition to_uint8 :: "real \<Rightarrow> 8 word option" where
  "to_uint8 a = (if - 1 < a \<and> a < 256 then Some (word_of_int (trunc a)) else None)"

section \<open>Data\<close>

datatype Color = Color (red: "8 word") (green: "8 word") (blue: "8 word")

text \<open>
  A pixel coordinate. Its \<open>operator<\<close> (by \<open>x\<close>, then by \<open>y\<close>) only serves
  \<open>std::set<Position>\<close>, which is modelled by a finite set of positions: two positions
  are the same element exactly when they are equal.
\<close>

datatype Position = Position (pos_x: int) (pos_y: int)

datatype Vector2D = Vector2D (vec_x: real) (vec_y: real)

text \<open>The operators of \<open>Vector2D\<close>: \<open>+\<close>, \<open>-\<close>, \<open>* scalar\<close>, \<open>/ scalar\<close>.\<close>

definition vec_add :: "Vector2D \<Rightarrow> Vector2D \<Rightarrow> Vector2D" where
  "vec_add a b = Vector2D (f32 (vec_x a + vec_x b)) (f32 (vec_y a + vec_y b))"

definition vec_sub :: "Vector2D \<Rightarrow> Vector2D \<Rightarrow> Vector2D" where
  "vec_sub a b = Vector2D (f32 (vec_x a - vec_x b)) (f32 (vec_y a - vec_y b))"

definition vec_mul :: "Vector2D \<Rightarrow> real \<Rightarrow> Vector2D" where
  "vec_mul a k = Vector2D (f32 (vec_x a * k)) (f32 (vec_y a * k))"

definition vec_div :: "Vector2D \<Rightarrow> real \<Rightarrow> Vector2D" where
  "vec_div a k = Vector2D (f32 (vec_x a / k)) (f32 (vec_y a / k))"

definition magnitude :: "Vector2D \<Rightarrow> real" where
  "magnitude a = f32 (sqrt (f32 (f32 (vec_x a * vec_x a) + f32 (vec_y a * vec_y a))))"

definition normalize :: "Vector2D \<Rightarrow> Vector2D" where
  "normalize a =
     (let mag = magnitude a
      in if mag > 0 then Vector2D (f32 (vec_x a / mag)) (f32 (vec_y a / mag))
         else Vector2D 0 0)"

section \<open>Colours\<close>

text \<open>
  \<open>hsvToRgb\<close> in two steps: the three channels as floats, already scaled by 255
  (\<open>hsv_channels\<close>), then the three casts to \<open>uint8_t\<close>.
\<close>

definition hsv_channels :: "real \<Rightarrow> real \<Rightarrow> real \<Rightarrow> real \<times> real \<times> real" where
  "hsv_channels h0 s v =
     (let h = fmod h0 1;
          c = f32 (v * s);
          x = f32 (c * f32 (1 - \<bar>f32 (fmod (f32 (h * 6)) 2 - 1)\<bar>));
          m = f32 (v - c);
          (r, g, b) =
            (if h < f32 (1 / 6) then (c, x, 0)
             else if h < f32 (2 / 6) then (x, c, 0)
             else if h < f32 (3 / 6) then (0, c, x)
             else if h < f32 (4 / 6) then (0, x, c)
             else if h < f32 (5 / 6) then (x, 0, c)
             else (c, 0, x))
      in (f32 (f32 (r + m) * 255), f32 (f32 (g + m) * 255), f32 (f32 (b + m) * 255)))"

definition hsvToRgb :: "real \<Rightarrow> real \<Rightarrow> real \<Rightarrow> Color option" where
  "hsvToRgb h s v =
     (case hsv_channels h s v of
        (r, g, b) \<Rightarrow>
          (case (to_uint8 r, to_uint8 g, to_uint8 b) of
             (Some r', Some g', Some b') \<Rightarrow> Some (Color r' g' b')
           | _ \<Rightarrow> None))"

definition getDynamicFlockColor :: "real \<Rightarrow> int \<Rightarrow> Color option" where
  "getDynamicFlockColor timeElapsed birdIndex =
     (let hueOffset =
            fmod (f32 (f32 (timeElapsed * 0.5) + f32 (f32 (of_int birdIndex) * f32 0.1))) 1
      in hsvToRgb hueOffset (f32 0.9) (f32 0.8))"

definition getDynamicTextColor :: "real \<Rightarrow> Position \<Rightarrow> Color option" where
  "getDynamicTextColor timeElapsed pixelPos =
     (let positionOffset =
            f32 (f32 (f32 (f32 (of_int (pos_x pixelPos)) / 64) +
                      f32 (f32 (of_int (pos_y pixelPos)) / 32)) * f32 0.3);
          hue = fmod (f32 (f32 (timeElapsed * f32 0.2) + positionOffset)) 1
      in hsvToRgb hue 1 1)"

section \<open>Random numbers\<close>

text \<open>
  \<open>random(lo, hi)\<close> belongs to the Arduino core, not to this program. The generator's
  hidden state is modelled by the sequence of raw values it is going to return; a call
  takes the first one, reduces it into \<open>lo .. hi - 1\<close> as the core documents, and leaves
  the rest.
\<close>

type_synonym rng = "nat \<Rightarrow> nat"

definition random :: "rng \<Rightarrow> int \<Rightarrow> int \<Rightarrow> int \<times> rng" where
  "random g lo hi =
     ((if lo \<ge> hi then lo else lo + int (g 0) mod (hi - lo)), (\<lambda>k. g (Suc k)))"

section \<open>A bird of the flock\<close>

record FlockBird =
  position :: Vector2D
  velocity :: Vector2D
  phase :: real
  speedMultiplier :: real
  separationRadius :: real

text \<open>
  The constructor: the members are initialised in the order of their declaration
  (\<open>phase\<close>, \<open>speedMultiplier\<close>, \<open>separationRadius\<close>), then the body draws the two
  velocity factors.
\<close>

definition new_FlockBird :: "real \<Rightarrow> real \<Rightarrow> Vector2D \<Rightarrow> rng \<Rightarrow> FlockBird \<times> rng" where
  "new_FlockBird bx by direction g0 =
     (let (r1, g1) = random g0 0 628;
          (r2, g2) = random g1 70 130;
          (r3, g3) = random g2 200 400;
          (r4, g4) = random g3 80 120;
          (r5, g5) = random g4 80 120
      in (\<lparr>position = Vector2D bx by,
           velocity = Vector2D (vec_x direction * of_int r4 / 100)
                               (vec_y direction * of_int r5 / 100),
           phase = of_int r1 / 100,
           speedMultiplier = of_int r2 / 100,
           separationRadius = of_int r3 / 100\<rparr>, g5))"

definition getPixelPos :: "FlockBird \<Rightarrow> Position" where
  "getPixelPos bird =
     Position (c_round (vec_x (position bird))) (c_round (vec_y (position bird)))"

definition isOnScreen :: "FlockBird \<Rightarrow> bool" where
  "isOnScreen bird \<longleftrightarrow>
     vec_x (position bird) \<ge> 0 \<and> vec_x (position bird) < of_int WIDTH \<and>
     vec_y (position bird) \<ge> 0 \<and> vec_y (position bird) < of_int HEIGHT"

text \<open>
  The three neighbour rules walk the whole flock and skip the bird itself
  (\<open>&other == this\<close>): \<open>this\<close> is the element at index \<open>i\<close> of the flock it is given.
\<close>

definition separationRule :: "FlockBird \<Rightarrow> nat \<Rightarrow> FlockBird list \<Rightarrow> Vector2D" where
  "separationRule this i flock =
     (let (steer, count) =
            fold (\<lambda>(j, other) (steer, count).
                    if j = i then (steer, count)
                    else
                      let diff = vec_sub (position this) (position other);
                          distance = magnitude diff
                      in if distance > 0 \<and> distance < separationRadius this
                         then (vec_add steer (vec_mul (normalize diff) (f32 (1 / distance))),
                               Suc count)
                         else (steer, count))
              (enumerate 0 flock) (Vector2D 0 0, 0)
      in if count > 0 then vec_div steer (f32 (real count)) else steer)"

definition alignmentRule :: "FlockBird \<Rightarrow> nat \<Rightarrow> FlockBird list \<Rightarrow> Vector2D" where
  "alignmentRule this i flock =
     (let neighborDistance = 8;
          (avgVel, count) =
            fold (\<lambda>(j, other) (avgVel, count).
                    if j = i then (avgVel, count)
                    else
                      let diff = vec_sub (position this) (position other);
                          distance = magnitude diff
                      in if distance < neighborDistance
                         then (vec_add avgVel (velocity other), Suc count)
                         else (avgVel, count))
              (enumerate 0 flock) (Vector2D 0 0, 0)
      in if count > 0 then vec_sub (vec_div avgVel (f32 (real count))) (velocity this)
         else Vector2D 0 0)"

definition cohesionRule :: "FlockBird \<Rightarrow> nat \<Rightarrow> FlockBird list \<Rightarrow> Vector2D" where
  "cohesionRule this i flock =
     (let neighborDistance = 12;
          (center, count) =
            fold (\<lambda>(j, other) (center, count).
                    if j = i then (center, count)
                    else
                      let diff = vec_sub (position this) (position other);
                          distance = magnitude diff
                      in if distance < neighborDistance
                         then (vec_add center (position other), Suc count)
                         else (center, count))
              (enumerate 0 flock) (Vector2D 0 0, 0)
      in if count > 0
         then vec_mul (vec_sub (vec_div center (f32 (real count))) (position this)) (f32 0.01)
         else Vector2D 0 0)"

text \<open>The attraction centre is a pointer that may be null: an \<open>option\<close>.\<close>

definition attractionRule ::
  "FlockBird \<Rightarrow> Position fset \<Rightarrow> Position fset \<Rightarrow> Vector2D option \<Rightarrow> Vector2D" where
  "attractionRule this targetPixels capturedPixels attractionCenter =
     (case attractionCenter of
        None \<Rightarrow> Vector2D 0 0
      | Some center \<Rightarrow>
          let diff = vec_sub center (position this);
              distance = magnitude diff
          in if distance > 0
             then (let attractionStrength = 0.5 in vec_mul (normalize diff) attractionStrength)
             else Vector2D 0 0)"

text \<open>
  \<open>updateFlocking\<close> in three steps; \<open>ms\<close> is what \<open>millis()\<close> returns inside the call.
  First the velocity after the weighted forces and the wing-flapping terms
  (\<open>steered_velocity\<close>), then the limit on its magnitude (\<open>limit_velocity\<close>), then the
  move.
\<close>

definition steered_velocity ::
  "FlockBird \<Rightarrow> nat \<Rightarrow> FlockBird list \<Rightarrow> Position fset \<Rightarrow> Position fset \<Rightarrow>
   Vector2D option \<Rightarrow> 32 word \<Rightarrow> Vector2D" where
  "steered_velocity this i flock targetPixels capturedPixels attractionCenter ms =
     (let separation = separationRule this i flock;
          alignment = alignmentRule this i flock;
          cohesion = cohesionRule this i flock;
          attraction = attractionRule this targetPixels capturedPixels attractionCenter;
          v = vec_add (vec_add (vec_add (vec_add (velocity this)
                (vec_mul separation (f32 0.15))) (vec_mul alignment (f32 0.1)))
                (vec_mul cohesion (f32 0.05))) (vec_mul attraction (f32 0.3));
          currentTime = f32 (f32 (real (unat ms)) / 1000)
      in Vector2D
           (f32 (vec_x v +
              f32 (f32 (f32 0.05 * f32 (sin (f32 (phase this + f32 (currentTime * 8))))) *
                   speedMultiplier this)))
           (f32 (vec_y v +
              f32 (f32 (f32 0.03 * f32 (cos (f32 (phase this + f32 (currentTime * 6))))) *
                   speedMultiplier this))))"

definition limit_velocity :: "Vector2D \<Rightarrow> Vector2D" where
  "limit_velocity v =
     (let maxVel = 3;
          velMag = magnitude v
      in if velMag > maxVel then vec_mul (normalize v) maxVel else v)"

definition updateFlocking ::
  "FlockBird \<Rightarrow> nat \<Rightarrow> FlockBird list \<Rightarrow> Position fset \<Rightarrow> Position fset \<Rightarrow>
   Vector2D option \<Rightarrow> 32 word \<Rightarrow> FlockBird" where
  "updateFlocking this i flock targetPixels capturedPixels attractionCenter ms =
     (let v = limit_velocity
                (steered_velocity this i flock targetPixels capturedPixels attractionCenter ms)
      in this\<lparr>velocity := v, position := vec_add (position this) (vec_mul v (f32 0.4))\<rparr>)"

section \<open>The simulation state\<close>

text \<open>
  One drawn frame: what \<open>drawPixel\<close> received since the last \<open>fillScreen(0)\<close>. The text
  pixels are drawn first, one call per captured coordinate (a set: the coordinates are
  distinct), then the birds in the order of the flock. A colour is kept as the \<open>Color\<close>
  that \<open>color565\<close> is given.
\<close>

record frame =
  text_pixels :: "(Position \<times> Color) fset"
  bird_pixels :: "(Position \<times> Color) list"

text \<open>The global variables, with the random generator and the matrix contents.\<close>

record sim =
  targetPixels :: "Position fset"
  capturedPixels :: "Position fset"
  flock :: "FlockBird list"
  startTime :: "32 word"
  lastUpdate :: "32 word"
  lastSpawnTime :: "32 word"
  currentDirectionIdx :: int
  animationComplete :: bool
  completionTime :: "32 word"
  generator :: rng
  matrix :: frame

text \<open>
  What one call of \<open>loop\<close> reads from the clock: \<open>millis()\<close> at its start, and
  \<open>millis()\<close> inside the update of the bird at each index.
\<close>

record clock =
  at_start :: "32 word"
  at_bird :: "nat \<Rightarrow> 32 word"

definition directions :: "string list" where
  "directions = [''left'', ''right'', ''top'', ''bottom'',
                 ''top_left'', ''top_right'', ''bottom_left'', ''bottom_right'']"

definition numDirections :: int where
  "numDirections = 8"

definition spawnInterval :: real where
  "spawnInterval = 3.0"

text \<open>\<open>directions[i]\<close>: reading outside the array is undefined.\<close>

definition direction_at :: "int \<Rightarrow> string option" where
  "direction_at i = (if 0 \<le> i \<and> i < int (length directions) then Some (directions ! nat i) else None)"

section \<open>Spawning\<close>

text \<open>
  The first part of \<open>createFlockFromDirection\<close>: the entry point \<open>(baseX, baseY)\<close> and
  the flight direction chosen by comparing the direction's name.
\<close>

definition flock_entry :: "string \<Rightarrow> rng \<Rightarrow> (real \<times> real \<times> Vector2D) \<times> rng" where
  "flock_entry direction g =
     (if direction = ''left'' then
        (let (r, g') = random g (- 50) 50 in ((- 10, 16, Vector2D 2 (of_int r / 100)), g'))
      else if direction = ''right'' then
        (let (r, g') = random g (- 50) 50 in ((74, 16, Vector2D (- 2) (of_int r / 100)), g'))
      else if direction = ''top'' then
        (let (r, g') = random g (- 50) 50 in ((32, - 10, Vector2D (of_int r / 100) 2), g'))
      else if direction = ''bottom'' then
        (let (r, g') = random g (- 50) 50 in ((32, 42, Vector2D (of_int r / 100) (- 2)), g'))
      else ((32, 16, Vector2D 1 1), g))"

text \<open>
  The formation loop \<open>for (i = 0; i < numBirds; i++)\<close>: \<open>i\<close> is the index of the next bird,
  the second number counts the birds still to create.
\<close>

fun create_formation ::
  "real \<Rightarrow> real \<Rightarrow> Vector2D \<Rightarrow> nat \<Rightarrow> nat \<Rightarrow> rng \<Rightarrow> FlockBird list \<times> rng" where
  "create_formation baseX baseY flightDir i 0 g = ([], g)"
| "create_formation baseX baseY flightDir i (Suc n) g =
     (let row = int i div 8;
          col = int i mod 8;
          (jx, g1) = random g (- 100) 100;
          offsetX = of_int ((col - 4) * 2) + of_int jx / 100;
          (jy, g2) = random g1 (- 100) 100;
          offsetY = of_int (row * 3) + of_int jy / 100;
          birdX = baseX + offsetX;
          birdY = baseY + offsetY;
          (bird, g3) = new_FlockBird birdX birdY flightDir g2;
          (rest, g4) = create_formation baseX baseY flightDir (Suc i) n g3
      in (bird # rest, g4))"

definition createFlockFromDirection :: "int \<Rightarrow> string \<Rightarrow> rng \<Rightarrow> FlockBird list \<times> rng" where
  "createFlockFromDirection numBirds direction g =
     (case flock_entry direction g of
        ((baseX, baseY, flightDir), g') \<Rightarrow>
          create_formation baseX baseY flightDir 0 (nat numBirds) g')"

section \<open>One call of loop\<close>

text \<open>The spawn block. The diagnostic output on \<open>Serial\<close> is left out throughout.\<close>

definition spawn_wave :: "32 word \<Rightarrow> sim \<Rightarrow> sim option" where
  "spawn_wave currentTime s =
     (let remainingLeds = int (fcard (targetPixels s)) - int (fcard (capturedPixels s));
          spawnIntervalMs = spawnInterval * 1000
      in if remainingLeds > 0 \<and>
            real (unat ((currentTime - startTime s) - lastSpawnTime s)) > spawnIntervalMs \<and>
            length (flock s) < 200
         then
           (let birdsToSpawn = min 50 remainingLeds
            in case direction_at (currentDirectionIdx s) of
                 None \<Rightarrow> None
               | Some direction \<Rightarrow>
                   (case createFlockFromDirection birdsToSpawn direction (generator s) of
                      (newFlock, g) \<Rightarrow>
                        Some (s\<lparr>flock := flock s @ newFlock,
                                generator := g,
                                currentDirectionIdx :=
                                  (currentDirectionIdx s + 1) mod numDirections,
                                lastSpawnTime := currentTime - startTime s\<rparr>)))
         else Some s)"

text \<open>
  \<open>for (auto& bird : flock) bird.updateFlocking(flock, ...)\<close> updates in place: the bird
  at index \<open>length front\<close> sees the birds before it already updated (\<open>front\<close>) and the
  others not yet (\<open>bird # rest\<close>).
\<close>

fun update_birds ::
  "(nat \<Rightarrow> 32 word) \<Rightarrow> Position fset \<Rightarrow> Position fset \<Rightarrow> FlockBird list \<Rightarrow> FlockBird list \<Rightarrow>
   FlockBird list" where
  "update_birds ms tp cp front [] = front"
| "update_birds ms tp cp front (bird # rest) =
     update_birds ms tp cp
       (front @ [updateFlocking bird (length front) (front @ bird # rest) tp cp None
                   (ms (length front))])
       rest"

text \<open>The capture scan over the flock.\<close>

fun capture_birds :: "Position fset \<Rightarrow> FlockBird list \<Rightarrow> Position fset \<Rightarrow> Position fset" where
  "capture_birds tp [] cp = cp"
| "capture_birds tp (bird # rest) cp =
     (if isOnScreen bird then
        (let pixelPos = getPixelPos bird
         in if pixelPos |\<in>| tp \<and> pixelPos |\<notin>| cp
            then capture_birds tp rest (finsert pixelPos cp)
            else capture_birds tp rest cp)
      else capture_birds tp rest cp)"

text \<open>The predicate of \<open>remove_if\<close>, and the cleanup that erases what it selects.\<close>

definition flown_off :: "FlockBird \<Rightarrow> bool" where
  "flown_off bird \<longleftrightarrow>
     vec_x (position bird) < - 25 \<or> vec_x (position bird) > 89 \<or>
     vec_y (position bird) < - 25 \<or> vec_y (position bird) > 57"

definition cleanup :: "FlockBird list \<Rightarrow> FlockBird list" where
  "cleanup fl = filter (\<lambda>bird. \<not> flown_off bird) fl"

text \<open>The block guarded by \<open>!textComplete\<close>.\<close>

definition flocking :: "clock \<Rightarrow> sim \<Rightarrow> sim option" where
  "flocking c s =
     (case spawn_wave (at_start c) s of
        None \<Rightarrow> None
      | Some s1 \<Rightarrow>
          (let fl = update_birds (at_bird c) (targetPixels s1) (capturedPixels s1) [] (flock s1);
               cp = capture_birds (targetPixels s1) fl (capturedPixels s1)
           in Some (s1\<lparr>flock := cleanup fl, capturedPixels := cp\<rparr>)))"

text \<open>
  The display update. A colour whose conversion is undefined makes the frame undefined.
\<close>

definition draw_text :: "real \<Rightarrow> Position fset \<Rightarrow> (Position \<times> Color) fset option" where
  "draw_text timeElapsed cp =
     (if fBall cp (\<lambda>pixel. getDynamicTextColor timeElapsed pixel \<noteq> None)
      then Some ((\<lambda>pixel. (pixel, the (getDynamicTextColor timeElapsed pixel))) |`| cp)
      else None)"

fun draw_birds :: "real \<Rightarrow> nat \<Rightarrow> FlockBird list \<Rightarrow> (Position \<times> Color) list option" where
  "draw_birds timeElapsed i [] = Some []"
| "draw_birds timeElapsed i (bird # rest) =
     (if isOnScreen bird then
        (case getDynamicFlockColor timeElapsed (int i) of
           None \<Rightarrow> None
         | Some birdColor \<Rightarrow>
             (case draw_birds timeElapsed (Suc i) rest of
                None \<Rightarrow> None
              | Some ds \<Rightarrow> Some ((getPixelPos bird, birdColor) # ds)))
      else draw_birds timeElapsed (Suc i) rest)"

definition render :: "real \<Rightarrow> sim \<Rightarrow> frame option" where
  "render timeElapsed s =
     (case draw_text timeElapsed (capturedPixels s) of
        None \<Rightarrow> None
      | Some ts \<Rightarrow>
          (case draw_birds timeElapsed 0 (flock s) of
             None \<Rightarrow> None
           | Some bs \<Rightarrow> Some \<lparr>text_pixels = ts, bird_pixels = bs\<rparr>))"

text \<open>
  The start of \<open>loop\<close> once the 50 ms gate is passed: \<open>lastUpdate\<close> is set, the local
  \<open>textComplete\<close> is computed, and the completion time is recorded while it is still 0.
\<close>

definition textComplete :: "sim \<Rightarrow> bool" where
  "textComplete s \<longleftrightarrow> fcard (capturedPixels s) \<ge> fcard (targetPixels s)"

definition note_completion :: "32 word \<Rightarrow> sim \<Rightarrow> sim" where
  "note_completion currentTime s =
     (let s1 = s\<lparr>lastUpdate := currentTime\<rparr>
      in if textComplete s1 \<and> completionTime s1 = 0
         then s1\<lparr>completionTime := currentTime\<rparr> else s1)"

text \<open>
  \<open>loop\<close>. \<open>None\<close> stands for undefined behaviour (a direction index outside the array,
  a colour channel outside \<open>uint8_t\<close>).
\<close>

definition loop :: "clock \<Rightarrow> sim \<Rightarrow> sim option" where
  "loop c s =
     (let currentTime = at_start c
      in if currentTime - lastUpdate s < 50 then Some s
         else
           (let timeElapsed = f32 (f32 (real (unat (currentTime - startTime s))) / 1000);
                s2 = note_completion currentTime s
            in if completionTime s2 \<noteq> 0 \<and> currentTime - completionTime s2 \<ge> 1000
               then Some (s2\<lparr>animationComplete := True,
                              matrix := \<lparr>text_pixels = {||}, bird_pixels = []\<rparr>\<rparr>)
               else
                 (case (if \<not> textComplete s then flocking c s2 else Some s2) of
                    None \<Rightarrow> None
                  | Some s3 \<Rightarrow>
                      (case render timeElapsed s3 of
                         None \<Rightarrow> None
                       | Some fr \<Rightarrow> Some (s3\<lparr>matrix := fr\<rparr>)))))"

text \<open>A run: \<open>loop\<close> called once for each clock reading of the list, in order.\<close>

fun run :: "clock list \<Rightarrow> sim \<Rightarrow> sim option" where
  "run [] s = Some s"
| "run (c # cs) s = (case loop c s of None \<Rightarrow> None | Some s' \<Rightarrow> run cs s')"

text \<open>
  The state that \<open>setup\<close> leaves, given the target mask that \<open>getThemeParkWaitsPixels\<close>
  returns (a fixed set of coordinates, taken as a parameter here), the clock reading and
  the seeded generator; the other globals have their initial values.
\<close>

definition setup_sim :: "Position fset \<Rightarrow> 32 word \<Rightarrow> rng \<Rightarrow> sim" where
  "setup_sim pixels now g =
     \<lparr>targetPixels = pixels, capturedPixels = {||}, flock = [],
      startTime = now, lastUpdate = now, lastSpawnTime = 0,
      currentDirectionIdx = 0, animationComplete = False, completionTime = 0,
      generator = g, matrix = \<lparr>text_pixels = {||}, bird_pixels = []\<rparr>\<rparr>"


section \<open>The extended bounds, and example states\<close>

text \<open>
  The extended bounds in the words of the specification: at most 25 units beyond each
  edge of the \<open>WIDTH \<times> HEIGHT\<close> screen. \<open>flown_off\<close> above is the source's test.
\<close>

definition within_margin :: "FlockBird \<Rightarrow> bool" where
  "within_margin bird \<longleftrightarrow>
     - 25 \<le> vec_x (position bird) \<and> vec_x (position bird) \<le> of_int WIDTH + 25 \<and>
     - 25 \<le> vec_y (position bird) \<and> vec_y (position bird) \<le> of_int HEIGHT + 25"

text \<open>
  Concrete values on which the theorems below are instantiated: a resting bird at a given
  position, a clock that reads the same millisecond throughout one call of \<open>loop\<close>, and a
  state with a two-pixel target and one bird sitting on the first pixel.
\<close>

definition bird_at :: "real \<Rightarrow> real \<Rightarrow> FlockBird" where
  "bird_at px py = \<lparr>position = Vector2D px py, velocity = Vector2D 0 0, phase = 0,
     speedMultiplier = 1, separationRadius = 2\<rparr>"

definition tick :: "32 word \<Rightarrow> clock" where
  "tick t = \<lparr>at_start = t, at_bird = (\<lambda>i. t)\<rparr>"

definition demo :: sim where
  "demo = \<lparr>targetPixels = {|Position 5 5, Position 6 5|}, capturedPixels = {||},
     flock = [bird_at 5 5], startTime = 0, lastUpdate = 0, lastSpawnTime = 0,
     currentDirectionIdx = 0, animationComplete = False, completionTime = 0,
     generator = (\<lambda>k. 0), matrix = \<lparr>text_pixels = {||}, bird_pixels = []\<rparr>\<rparr>"

text \<open>
  The bird of \<open>demo\<close> after its update at millisecond 100: the time in seconds is the
  float nearest to \<open>0.1\<close>, the two angles are that float times 8 and times 6, and each
  wing-flapping term is rounded after its two products and after its addition to the
  velocity.
\<close>

definition flapped :: FlockBird where
  "flapped =
     (let v = Vector2D (f32 (f32 (f32 (f32 0.05 * f32 (sin (13421773 / 16777216))))))
                (f32 (f32 (f32 (f32 0.03 * f32 (cos (5033165 / 8388608))))))
      in \<lparr>position = vec_add (Vector2D 5 5) (vec_mul v (f32 0.4)), velocity = v, phase = 0,
           speedMultiplier = 1, separationRadius = 2\<rparr>)"

text \<open>A state at the moment a spawn is due, with three target pixels left.\<close>

definition demo3 :: sim where
  "demo3 = \<lparr>targetPixels = {|Position 5 5, Position 6 5, Position 7 5|}, capturedPixels = {||},
     flock = [], startTime = 0, lastUpdate = 0, lastSpawnTime = 0,
     currentDirectionIdx = 0, animationComplete = False, completionTime = 0,
     generator = (\<lambda>k. 0), matrix = \<lparr>text_pixels = {||}, bird_pixels = []\<rparr>\<rparr>"

text \<open>
  The length of a vector as a real number, without rounding: what the rounded
  \<open>magnitude\<close> approximates.
\<close>

definition exact_length :: "Vector2D \<Rightarrow> real" where
  "exact_length v = sqrt (vec_x v * vec_x v + vec_y v * vec_y v)"

text \<open>A bird flying at the speed limit, and a state whose text is complete.\<close>

definition glider :: FlockBird where
  "glider = \<lparr>position = Vector2D 5 5, velocity = Vector2D 3 0, phase = 0,
     speedMultiplier = 1, separationRadius = 2\<rparr>"

definition finished :: sim where
  "finished = \<lparr>targetPixels = {|Position 5 5|}, capturedPixels = {|Position 5 5|},
     flock = [bird_at 5 5], startTime = 0, lastUpdate = 0, lastSpawnTime = 0,
     currentDirectionIdx = 0, animationComplete = False, completionTime = 0,
     generator = (\<lambda>k. 0), matrix = \<lparr>text_pixels = {||}, bird_pixels = []\<rparr>\<rparr>"

text \<open>
  The states in which \<open>loop\<close> has no undefined behaviour: the direction index is inside
  the array and no captured coordinate is negative.
\<close>

definition well_formed :: "sim \<Rightarrow> bool" where
  "well_formed s \<longleftrightarrow>
     0 \<le> currentDirectionIdx s \<and> currentDirectionIdx s < numDirections \<and>
     fBall (capturedPixels s) (\<lambda>p. 0 \<le> pos_x p \<and> 0 \<le> pos_y p)"

section \<open>Properties of the rounding\<close>

text \<open>
  \<open>f32\<close> on a numeral is evaluated by unfolding; its error is at most half a unit in the
  last place, \<open>2 ^ - 24\<close> relative to the number, or \<open>2 ^ - 150\<close> among the subnormal
  numbers; and it keeps the sign.
\<close>

lemma binade_numeral:
  "binade (numeral k) a =
     (if 2 \<le> a then binade (pred_numeral k) (a / 2) + 1
      else if a < 1 then binade (pred_numeral k) (a * 2) - 1 else 0)"
  by (simp add: numeral_eq_Suc)

text \<open>The unfolding rules, for arguments that are numerals or fractions of numerals only.\<close>

lemmas binade_eval =
  binade_numeral [of _ "numeral a"] binade_numeral [of _ "numeral a / numeral b"]
  binade_numeral [of _ 1] binade_numeral [of _ "1 / numeral b"] for a b

lemmas f32_unfold =
  f32_def [of "numeral a"] f32_def [of "numeral a / numeral b"]
  f32_def [of 1] f32_def [of "1 / numeral b"]
  f32_def [of "- numeral a"] f32_def [of "- (numeral a / numeral b)"]
  f32_def [of "- numeral a / numeral b"]
  f32_def [of "- 1"] f32_def [of "- (1 / numeral b)"] f32_def [of "- 1 / numeral b"] for a b

lemmas f32_eval = f32_unfold binade_eval round_even_def Let_def power_int_def power_divide







lemma round_even_err: "\<bar>of_int (round_even a) - a\<bar> \<le> 1 / 2"
proof -
  have "of_int \<lfloor>a\<rfloor> \<le> a" "a < of_int \<lfloor>a\<rfloor> + 1" by linarith+
  then show ?thesis
    by (auto simp: round_even_def Let_def)
qed

lemma round_even_nonneg: "0 \<le> a \<Longrightarrow> 0 \<le> round_even a"
  by (auto simp: round_even_def Let_def)

lemma round_even_nonpos:
  assumes "a \<le> 0"
  shows "round_even a \<le> 0"
proof (cases "a = 0")
  case True
  then show ?thesis by (simp add: round_even_def)
next
  case False
  with assms have "a < 0" by simp
  then have "\<lfloor>a\<rfloor> \<le> - 1" by linarith
  then show ?thesis by (auto simp: round_even_def Let_def)
qed

lemma powi_two_pos: "0 < (2::real) powi e"
  by (simp add: power_int_def)

lemma powi_two_Suc: "(2::real) powi (e + 1) = 2 * 2 powi e"
  by (simp add: power_int_add)

lemma powi_two_pred: "(2::real) powi (e - 1) = 2 powi e / 2"
  by (simp add: power_int_diff)

lemma binade_ge_one: "1 \<le> a \<Longrightarrow> 2 powi (binade n a) \<le> a \<and> 0 \<le> binade n a"
proof (induction n arbitrary: a)
  case 0
  then show ?case by simp
next
  case (Suc n)
  show ?case
  proof (cases "2 \<le> a")
    case True
    then have "1 \<le> a / 2" by simp
    from Suc.IH [OF this] True show ?thesis
      by (simp add: powi_two_Suc)
  next
    case False
    with Suc.prems show ?thesis by simp
  qed
qed

lemma binade_lt_one:
  "0 < a \<Longrightarrow> a < 1 \<Longrightarrow> 2 powi (binade n a) \<le> a \<or> binade n a \<le> - int n"
proof (induction n arbitrary: a)
  case 0
  then show ?case by simp
next
  case (Suc n)
  show ?case
  proof (cases "1 \<le> a * 2")
    case True
    from binade_ge_one [OF this, of n] Suc.prems show ?thesis
      by (simp add: powi_two_pred)
  next
    case False
    then have "a * 2 < 1" "0 < a * 2" using Suc.prems by simp_all
    from Suc.IH [OF this(2,1)] Suc.prems show ?thesis
      by (auto simp: powi_two_pred)
  qed
qed

lemma binade_below:
  assumes "0 < a"
  shows "2 powi (binade n a) \<le> a \<or> binade n a \<le> - int n"
  using assms binade_ge_one [of a n] binade_lt_one [of a n] by (cases "1 \<le> a") auto

lemma f32_zero [simp]: "f32 0 = 0"
  by (simp add: f32_def)

lemma f32_err: "\<bar>f32 a - a\<bar> \<le> \<bar>a\<bar> / 2 ^ 24 + 1 / 2 ^ 150"
proof (cases "a = 0")
  case True
  then show ?thesis by simp
next
  case False
  define e where "e = max (binade 300 \<bar>a\<bar>) (- 126)"
  define q where "q = (2::real) powi (e - 23)"
  have q: "0 < q" by (simp add: q_def powi_two_pos)
  have f: "f32 a = of_int (round_even (a / q)) * q"
    using False by (simp add: f32_def Let_def e_def q_def)
  have "\<bar>of_int (round_even (a / q)) - a / q\<bar> \<le> 1 / 2"
    by (rule round_even_err)
  then have "\<bar>of_int (round_even (a / q)) - a / q\<bar> * q \<le> 1 / 2 * q"
    using q by (intro mult_right_mono) simp_all
  moreover have "\<bar>of_int (round_even (a / q)) - a / q\<bar> * q = \<bar>f32 a - a\<bar>"
  proof -
    have "(of_int (round_even (a / q)) - a / q) * q = f32 a - a"
      using q by (simp add: f left_diff_distrib)
    then have "\<bar>f32 a - a\<bar> = \<bar>of_int (round_even (a / q)) - a / q\<bar> * \<bar>q\<bar>"
      by (simp only: abs_mult [symmetric])
    with q show ?thesis by simp
  qed
  ultimately have err: "\<bar>f32 a - a\<bar> \<le> q / 2" by simp
  have q2: "q / 2 = 2 powi e / 2 ^ 24"
    by (simp add: q_def power_int_diff)
  show ?thesis
  proof (cases "- 126 \<le> binade 300 \<bar>a\<bar>")
    case True
    then have e: "e = binade 300 \<bar>a\<bar>" by (simp add: e_def)
    have "0 < \<bar>a\<bar>" using False by simp
    from binade_below [OF this, of 300] True have "2 powi e \<le> \<bar>a\<bar>"
      by (simp add: e)
    then have "q / 2 \<le> \<bar>a\<bar> / 2 ^ 24"
      by (simp add: q2 divide_right_mono)
    moreover have "(0::real) \<le> 1 / 2 ^ 150" by simp
    ultimately show ?thesis using err by linarith
  next
    case False
    then have "e = - 126" by (simp add: e_def)
    then have "q / 2 = 1 / 2 ^ 150"
      by (simp add: q_def power_int_def power_divide)
    with err have "\<bar>f32 a - a\<bar> \<le> 1 / 2 ^ 150" by (simp only:)
    moreover have "0 \<le> \<bar>a\<bar> / 2 ^ 24" by simp
    ultimately show ?thesis by linarith
  qed
qed

lemma f32_close: "\<bar>f32 a - a\<bar> \<le> \<bar>a\<bar> / 16777216 + 1 / 1099511627776"
proof -
  have "(1::real) / 2 ^ 150 \<le> 1 / 1099511627776" by simp
  with f32_err [of a] show ?thesis by simp
qed

lemma f32_nonneg: "0 \<le> a \<Longrightarrow> 0 \<le> f32 a"
  by (simp add: f32_def Let_def powi_two_pos round_even_nonneg less_imp_le)

lemma f32_nonpos: "a \<le> 0 \<Longrightarrow> f32 a \<le> 0"
  by (simp add: f32_def Let_def powi_two_pos round_even_nonpos less_imp_le
      mult_nonpos_nonneg divide_nonpos_pos)

section \<open>Properties of the colour conversion\<close>

lemma trunc_nonneg: "0 \<le> a \<Longrightarrow> trunc a = \<lfloor>a\<rfloor>"
  by (simp add: trunc_def)

lemma fmod_one_nonneg: "0 \<le> a \<Longrightarrow> fmod a 1 = frac a"
  by (simp add: fmod_def trunc_def frac_def)

lemma fmod_one_neg: "a < 0 \<Longrightarrow> fmod a 1 = - frac (- a)"
  by (simp add: fmod_def trunc_def frac_def)

lemma fmod_one_small_neg:
  assumes "0 < f" "f < 1"
  shows "fmod (- f) 1 = - f"
proof -
  have "\<lfloor>f\<rfloor> = 0" using assms by linarith
  with assms show ?thesis by (simp add: fmod_def trunc_def)
qed

lemma fmod_one_idem: "fmod (fmod a 1) 1 = fmod a 1"
proof (cases "0 \<le> a")
  case True
  then show ?thesis
    by (simp add: fmod_one_nonneg frac_def)
next
  case False
  then have a: "a < 0" by simp
  show ?thesis
  proof (cases "frac (- a) = 0")
    case True
    with a have "fmod a 1 = 0" by (simp only: fmod_one_neg)
    then show ?thesis by (simp add: fmod_def trunc_def)
  next
    case False
    then have f: "0 < frac (- a)" "frac (- a) < 1"
      using frac_ge_0 [of "- a"] frac_lt_1 [of "- a"] by linarith+
    then have "fmod (- frac (- a)) 1 = - frac (- a)"
      by (rule fmod_one_small_neg)
    then show ?thesis
      using a by (simp only: fmod_one_neg)
  qed
qed

lemma hsv_channels_fmod: "hsv_channels (fmod h 1) s v = hsv_channels h s v"
  by (simp add: hsv_channels_def fmod_one_idem)

lemma hsvToRgb_fmod: "hsvToRgb (fmod h 1) s v = hsvToRgb h s v"
  by (simp add: hsvToRgb_def hsv_channels_fmod)

lemma fmod_two_range:
  assumes "0 \<le> a"
  shows "0 \<le> fmod a 2 \<and> fmod a 2 < 2"
proof -
  have "0 \<le> a / 2" using assms by simp
  then have t: "trunc (a / 2) = \<lfloor>a / 2\<rfloor>" by (rule trunc_nonneg)
  have "of_int \<lfloor>a / 2\<rfloor> \<le> a / 2" "a / 2 < of_int \<lfloor>a / 2\<rfloor> + 1"
    by linarith+
  then show ?thesis
    unfolding fmod_def t by (simp add: field_simps)
qed

lemma f32_near:
  assumes "\<bar>a\<bar> \<le> 4"
  shows "\<bar>f32 a - a\<bar> \<le> 1 / 4000000"
  using f32_close [of a] assms by linarith

lemma channel_in_range:
  assumes "- 1 / 100000 \<le> a" "a \<le> 1 + 1 / 100000"
  shows "- 1 < f32 (f32 a * 255) \<and> f32 (f32 a * 255) < 256"
proof -
  have "\<bar>f32 a - a\<bar> \<le> 1 / 4000000"
    using assms by (intro f32_near) linarith
  then have b: "- 1 / 50000 \<le> f32 a" "f32 a \<le> 1 + 1 / 50000"
    using assms by linarith+
  then have "\<bar>f32 a * 255\<bar> \<le> 256" by linarith
  with f32_close [of "f32 a * 255"]
  have "\<bar>f32 (f32 a * 255) - f32 a * 255\<bar> \<le> 1 / 1000" by linarith
  with b show ?thesis by linarith
qed

lemma hsv_channels_range:
  assumes h: "0 \<le> h" and s: "0 \<le> s" "s \<le> 1" and v: "0 \<le> v" "v \<le> 1"
    and ch: "hsv_channels h s v = (r, g, b)"
  shows "- 1 < r \<and> r < 256 \<and> - 1 < g \<and> g < 256 \<and> - 1 < b \<and> b < 256"
proof -
  define k where "k = f32 (1 - \<bar>f32 (fmod (f32 (fmod h 1 * 6)) 2 - 1)\<bar>)"
  define c where "c = f32 (v * s)"
  define x where "x = f32 (c * k)"
  define m where "m = f32 (v - c)"
  have vs: "0 \<le> v * s" "v * s \<le> v"
    using s v by (simp_all add: mult_left_le)
  have c0: "0 \<le> c"
    unfolding c_def using vs(1) by (rule f32_nonneg)
  have "\<bar>c - v * s\<bar> \<le> 1 / 4000000"
    unfolding c_def using vs v by (intro f32_near) linarith
  then have c1: "c \<le> v + 1 / 4000000" "v * s - 1 / 4000000 \<le> c"
    using vs by linarith+
  have "0 \<le> fmod h 1"
    using h by (simp add: fmod_one_nonneg)
  then have "0 \<le> fmod h 1 * 6" by simp
  then have "0 \<le> f32 (fmod h 1 * 6)" by (rule f32_nonneg)
  then have fm: "0 \<le> fmod (f32 (fmod h 1 * 6)) 2 \<and> fmod (f32 (fmod h 1 * 6)) 2 < 2"
    by (rule fmod_two_range)
  define d where "d = f32 (fmod (f32 (fmod h 1 * 6)) 2 - 1)"
  have "\<bar>d - (fmod (f32 (fmod h 1 * 6)) 2 - 1)\<bar> \<le> 1 / 4000000"
    unfolding d_def using fm by (intro f32_near) linarith
  then have d: "\<bar>d\<bar> \<le> 1 + 1 / 4000000"
    using fm by linarith
  have "\<bar>k - (1 - \<bar>d\<bar>)\<bar> \<le> 1 / 4000000"
    unfolding k_def d_def [symmetric] using d by (intro f32_near) linarith
  then have k: "- 1 / 2000000 \<le> k" "k \<le> 1 + 1 / 4000000"
    using d by linarith+
  have "c * k \<le> c + c / 4000000"
    using mult_left_mono [OF k(2) c0] by (simp add: algebra_simps)
  moreover have "- (c / 2000000) \<le> c * k"
    using mult_left_mono [OF k(1) c0] by (simp add: algebra_simps)
  ultimately have p: "c * k \<le> c + 1 / 2000000" "- 1 / 1000000 \<le> c * k"
    using c0 c1(1) v by linarith+
  then have "\<bar>x - c * k\<bar> \<le> 1 / 4000000"
    unfolding x_def using c1(1) v by (intro f32_near) linarith
  with p have x: "x \<le> c + 3 / 4000000" "- 5 / 4000000 \<le> x"
    by linarith+
  have "\<bar>m - (v - c)\<bar> \<le> 1 / 4000000"
    unfolding m_def using c0 c1(1) v by (intro f32_near) linarith
  then have m: "m \<le> v - c + 1 / 4000000" "v - c - 1 / 4000000 \<le> m"
    by linarith+
  have cm: "- 1 / 100000 \<le> c + m" "c + m \<le> 1 + 1 / 100000"
    using m v by linarith+
  have xm: "- 1 / 100000 \<le> x + m" "x + m \<le> 1 + 1 / 100000"
    using x m c1(1) v by linarith+
  have zm: "- 1 / 100000 \<le> m" "m \<le> 1 + 1 / 100000"
    using m c0 c1(1) v by linarith+
  note C = channel_in_range [OF cm] channel_in_range [OF xm] channel_in_range [OF zm]
  have "hsv_channels h s v =
      (case (if fmod h 1 < f32 (1 / 6) then (c, x, 0)
             else if fmod h 1 < f32 (2 / 6) then (x, c, 0)
             else if fmod h 1 < f32 (3 / 6) then (0, c, x)
             else if fmod h 1 < f32 (4 / 6) then (0, x, c)
             else if fmod h 1 < f32 (5 / 6) then (x, 0, c)
             else (c, 0, x)) of
         (r, g, b) \<Rightarrow> (f32 (f32 (r + m) * 255), f32 (f32 (g + m) * 255), f32 (f32 (b + m) * 255)))"
    unfolding hsv_channels_def Let_def c_def x_def m_def k_def ..
  with ch have "(r, g, b) =
      (case (if fmod h 1 < f32 (1 / 6) then (c, x, 0)
             else if fmod h 1 < f32 (2 / 6) then (x, c, 0)
             else if fmod h 1 < f32 (3 / 6) then (0, c, x)
             else if fmod h 1 < f32 (4 / 6) then (0, x, c)
             else if fmod h 1 < f32 (5 / 6) then (x, 0, c)
             else (c, 0, x)) of
         (r, g, b) \<Rightarrow> (f32 (f32 (r + m) * 255), f32 (f32 (g + m) * 255), f32 (f32 (b + m) * 255)))"
    by simp
  then show ?thesis
    using C by (auto split: if_splits)
qed

lemma to_uint8_in_range: "- 1 < a \<Longrightarrow> a < 256 \<Longrightarrow> to_uint8 a = Some (word_of_int (trunc a))"
  by (simp add: to_uint8_def)

lemma hsvToRgb_in_range:
  assumes "0 \<le> h" "0 \<le> s" "s \<le> 1" "0 \<le> v" "v \<le> 1"
    and ch: "hsv_channels h s v = (r, g, b)"
  shows "hsvToRgb h s v =
    Some (Color (word_of_int (trunc r)) (word_of_int (trunc g)) (word_of_int (trunc b)))"
proof -
  have "- 1 < r \<and> r < 256 \<and> - 1 < g \<and> g < 256 \<and> - 1 < b \<and> b < 256"
    using assms by (rule hsv_channels_range)
  then show ?thesis
    by (simp add: hsvToRgb_def ch to_uint8_in_range)
qed

lemma hsvToRgb_defined:
  assumes "0 \<le> h" "0 \<le> s" "s \<le> 1" "0 \<le> v" "v \<le> 1"
  shows "\<exists>c. hsvToRgb h s v = Some c"
proof -
  obtain r g b where "hsv_channels h s v = (r, g, b)"
    by (cases "hsv_channels h s v") auto
  with assms have "hsvToRgb h s v =
    Some (Color (word_of_int (trunc r)) (word_of_int (trunc g)) (word_of_int (trunc b)))"
    by (rule hsvToRgb_in_range)
  then show ?thesis by blast
qed

lemmas hsv_eval = hsvToRgb_def hsv_channels_def fmod_def trunc_def to_uint8_def f32_eval

lemma sixths:
  "f32 (1 / 6) = 11184811 / 67108864" "f32 (2 / 6) = 11184811 / 33554432"
  "f32 (3 / 6) = 1 / 2" "f32 (4 / 6) = 11184811 / 16777216"
  "f32 (5 / 6) = 13981013 / 16777216"
  by (simp_all add: f32_eval)

text \<open>
  Claim C5. With full saturation and value, the hue 0 and the floats nearest to 1/6, 2/6,
  3/6, 4/6 and 5/6 (the values of \<open>1.0f/6.0f\<close> and so on) give pure red, yellow, green,
  cyan, blue and magenta: every channel is exactly 0 or 255.
\<close>

theorem hsvToRgb_primaries:
  "hsvToRgb 0 1 1 = Some (Color 255 0 0) \<and>
   hsvToRgb (f32 (1 / 6)) 1 1 = Some (Color 255 255 0) \<and>
   hsvToRgb (f32 (2 / 6)) 1 1 = Some (Color 0 255 0) \<and>
   hsvToRgb (f32 (3 / 6)) 1 1 = Some (Color 0 255 255) \<and>
   hsvToRgb (f32 (4 / 6)) 1 1 = Some (Color 0 0 255) \<and>
   hsvToRgb (f32 (5 / 6)) 1 1 = Some (Color 255 0 255)"
  by (simp add: sixths) (simp add: hsv_eval)

text \<open>
  Claim C4, as stated, fails for a negative hue: \<open>fmod\<close> keeps the sign of its argument,
  so the hue \<open>- 1/8\<close> stays \<open>- 1/8\<close> and is not wrapped to \<open>7/8\<close>. With saturation 1/2
  and value 1 the two hues convert to different colours (every number on the way is a
  float, so no operation rounds).
\<close>

theorem hsvToRgb_negative_hue_counterexample:
  "frac (- 1 / 8 :: real) = 7 / 8 \<and>
   hsvToRgb (- 1 / 8) (1 / 2) 1 = Some (Color 255 31 127) \<and>
   hsvToRgb (7 / 8) (1 / 2) 1 = Some (Color 255 127 223) \<and>
   hsvToRgb (- 1 / 8) (1 / 2) 1 \<noteq> hsvToRgb (frac (- 1 / 8)) (1 / 2) 1"
  by (simp add: hsv_eval frac_def)

text \<open>
  Claim C4, amended. For every hue \<open>h \<ge> 0\<close> and saturation and value in \<open>[0, 1]\<close>,
  \<open>hsvToRgb h s v\<close> is \<open>hsvToRgb\<close> of the fractional part of \<open>h\<close>, which lies in
  \<open>[0, 1)\<close>; the three scaled channels lie strictly between \<open>- 1\<close> and 256, so the
  conversion to \<open>uint8_t\<close> is defined, and each output channel is the scaled channel
  truncated.
\<close>

theorem hsvToRgb_wraps_nonneg_hue:
  assumes "0 \<le> h" "0 \<le> s" "s \<le> 1" "0 \<le> v" "v \<le> 1"
  shows "hsvToRgb h s v = hsvToRgb (frac h) s v \<and> 0 \<le> frac h \<and> frac h < 1 \<and>
    (\<exists>r g b. hsv_channels (frac h) s v = (r, g, b) \<and>
       - 1 < r \<and> r < 256 \<and> - 1 < g \<and> g < 256 \<and> - 1 < b \<and> b < 256 \<and>
       hsvToRgb h s v =
         Some (Color (word_of_int (trunc r)) (word_of_int (trunc g)) (word_of_int (trunc b))))"
proof -
  have f: "fmod h 1 = frac h"
    using assms(1) by (rule fmod_one_nonneg)
  have w: "hsvToRgb h s v = hsvToRgb (frac h) s v"
    using hsvToRgb_fmod [of h s v] by (simp add: f)
  have fr: "0 \<le> frac h" "frac h < 1"
    by (simp_all add: frac_lt_1)
  obtain r g b where ch: "hsv_channels (frac h) s v = (r, g, b)"
    by (cases "hsv_channels (frac h) s v") auto
  have rng: "- 1 < r \<and> r < 256 \<and> - 1 < g \<and> g < 256 \<and> - 1 < b \<and> b < 256"
    using fr(1) assms(2-5) ch by (rule hsv_channels_range)
  have "hsvToRgb (frac h) s v =
      Some (Color (word_of_int (trunc r)) (word_of_int (trunc g)) (word_of_int (trunc b)))"
    using fr(1) assms(2-5) ch by (rule hsvToRgb_in_range)
  with w fr ch rng show ?thesis by simp
qed

text \<open>The amended claim at hue 7/4, saturation 1/2 and value 1.\<close>

theorem hsvToRgb_wraps_nonneg_hue_witness:
  "(0::real) \<le> 7 / 4 \<and> (0::real) \<le> 1 / 2 \<and> (1 / 2 :: real) \<le> 1 \<and>
   frac (7 / 4 :: real) = 3 / 4 \<and>
   hsvToRgb (7 / 4) (1 / 2) 1 = hsvToRgb (frac (7 / 4)) (1 / 2) 1 \<and>
   hsvToRgb (7 / 4) (1 / 2) 1 = Some (Color 191 127 255)"
  using hsvToRgb_wraps_nonneg_hue [of "7 / 4" "1 / 2" 1]
  by (simp add: hsv_eval frac_def)
section \<open>The rounded magnitude\<close>

text \<open>
  \<open>magnitude\<close> rounds four times. When the sum of the squares is at least 1 the result
  is within a factor \<open>1 \<plusminus> 1 / 2000000\<close> of the length; below that it is at most 2.
\<close>

lemma abs_le_root: "\<bar>x\<bar> \<le> sqrt (x * x + y * y)"
proof -
  have "sqrt (x * x) \<le> sqrt (x * x + y * y)"
    by (rule real_sqrt_le_mono) simp
  then show ?thesis by simp
qed

lemma root_square:
  assumes "0 \<le> S"
  shows "sqrt S * sqrt S = S"
  using assms by simp

lemma sum_rounded:
  fixes A B :: real
  assumes s0: "0 \<le> A" "0 \<le> B"
  defines "T \<equiv> f32 (f32 A + f32 B)"
  shows "0 \<le> T" "T \<le> (A + B) + (A + B) / 8000000 + 1 / 100000000000"
    "(A + B) - (A + B) / 8000000 - 1 / 100000000000 \<le> T"
proof -
  have a0: "0 \<le> f32 A" and b0: "0 \<le> f32 B"
    using s0 by (simp_all add: f32_nonneg)
  then show "0 \<le> T"
    unfolding T_def by (intro f32_nonneg) simp
  have x2: "\<bar>A\<bar> = A" and y2: "\<bar>B\<bar> = B" using s0 by simp_all
  have ea: "\<bar>f32 A - A\<bar> \<le> A / 16777216 + 1 / 1099511627776"
    using f32_close [of A] by (simp only: x2)
  have eb: "\<bar>f32 B - B\<bar> \<le> B / 16777216 + 1 / 1099511627776"
    using f32_close [of B] by (simp only: y2)
  have ab: "\<bar>f32 A + f32 B\<bar> = f32 A + f32 B"
    using a0 b0 by simp
  have eT: "\<bar>T - (f32 A + f32 B)\<bar> \<le> (f32 A + f32 B) / 16777216 + 1 / 1099511627776"
    unfolding T_def using f32_close [of "f32 A + f32 B"] by (simp only: ab)
  show "T \<le> (A + B) + (A + B) / 8000000 + 1 / 100000000000"
    using ea eb eT s0 unfolding add_divide_distrib by linarith
  show "(A + B) - (A + B) / 8000000 - 1 / 100000000000 \<le> T"
    using ea eb eT s0 unfolding add_divide_distrib by linarith
qed

lemma sum_squares_rounded:
  fixes x y :: real
  defines "S \<equiv> x * x + y * y"
  defines "T \<equiv> f32 (f32 (x * x) + f32 (y * y))"
  shows "0 \<le> T" "T \<le> S + S / 8000000 + 1 / 100000000000" "S - S / 8000000 - 1 / 100000000000 \<le> T"
  unfolding S_def T_def by (rule sum_rounded; simp)+

lemma magnitude_close:
  fixes x y :: real
  assumes S1: "1 \<le> x * x + y * y"
  defines "M \<equiv> sqrt (x * x + y * y)"
  shows "M - M / 2000000 \<le> magnitude (Vector2D x y)"
    and "magnitude (Vector2D x y) \<le> M + M / 2000000"
proof -
  define S where "S = x * x + y * y"
  define T where "T = f32 (f32 (x * x) + f32 (y * y))"
  note st = sum_squares_rounded [of x y, folded S_def T_def]
  have S: "1 \<le> S" using S1 by (simp add: S_def)
  have M: "M * M = S" "1 \<le> M"
    using S by (simp_all add: M_def S_def [symmetric])
  have Tu: "T \<le> S + S / 4000000" and Tl: "S - S / 4000000 \<le> T"
    using st S by linarith+
  have "T \<le> (M + M / 4000000)\<^sup>2"
  proof -
    have "(M + M / 4000000)\<^sup>2 = S + S / 2000000 + S / 16000000000000"
      by (simp add: power2_eq_square algebra_simps M(1) [symmetric])
    with Tu S show ?thesis by linarith
  qed
  then have Ru: "sqrt T \<le> M + M / 4000000"
    using M(2) by (intro real_le_lsqrt) simp_all
  have "(M - M / 4000000)\<^sup>2 \<le> T"
  proof -
    have "(M - M / 4000000)\<^sup>2 = S - S / 2000000 + S / 16000000000000"
      by (simp add: power2_eq_square algebra_simps M(1) [symmetric])
    with Tl S show ?thesis by linarith
  qed
  then have Rl: "M - M / 4000000 \<le> sqrt T"
    by (rule real_le_rsqrt)
  have R0: "\<bar>sqrt T\<bar> = sqrt T" using st(1) by simp
  have e: "\<bar>f32 (sqrt T) - sqrt T\<bar> \<le> sqrt T / 16777216 + 1 / 1099511627776"
    using f32_close [of "sqrt T"] by (simp only: R0)
  have mag: "magnitude (Vector2D x y) = f32 (sqrt T)"
    by (simp add: magnitude_def T_def)
  show "M - M / 2000000 \<le> magnitude (Vector2D x y)"
    unfolding mag using e Ru Rl M(2) by linarith
  show "magnitude (Vector2D x y) \<le> M + M / 2000000"
    unfolding mag using e Ru Rl M(2) by linarith
qed

lemma magnitude_small:
  fixes x y :: real
  assumes "x * x + y * y \<le> 1"
  shows "magnitude (Vector2D x y) \<le> 2"
proof -
  define T where "T = f32 (f32 (x * x) + f32 (y * y))"
  note st = sum_squares_rounded [of x y, folded T_def]
  define S where "S = x * x + y * y"
  have "0 \<le> S" "S \<le> 1" using assms by (simp_all add: S_def)
  with st [folded S_def] have "T \<le> 9 / 4"
    by linarith
  then have "T \<le> (3 / 2)\<^sup>2"
    by (simp add: power2_eq_square)
  then have R: "sqrt T \<le> 3 / 2"
    by (intro real_le_lsqrt) simp_all
  have R0: "\<bar>sqrt T\<bar> = sqrt T" using st(1) by simp
  have e: "\<bar>f32 (sqrt T) - sqrt T\<bar> \<le> sqrt T / 16777216 + 1 / 1099511627776"
    using f32_close [of "sqrt T"] by (simp only: R0)
  have mag: "magnitude (Vector2D x y) = f32 (sqrt T)"
    by (simp add: magnitude_def T_def)
  show ?thesis
    unfolding mag using e R by linarith
qed


section \<open>The capture scan\<close>

lemma capture_birds_eq:
  "capture_birds tp fl cp =
     cp |\<union>| (tp |\<inter>| fset_of_list (map getPixelPos (filter isOnScreen fl)))"
  by (induction fl arbitrary: cp) (auto simp: Let_def)

lemma spawn_wave_pixels:
  "spawn_wave t s = Some s' \<Longrightarrow>
     targetPixels s' = targetPixels s \<and> capturedPixels s' = capturedPixels s"
  by (auto simp: spawn_wave_def Let_def split: if_splits option.splits prod.splits)

lemma flocking_pixels:
  assumes "flocking c s = Some s'"
  shows "targetPixels s' = targetPixels s \<and>
    (\<exists>fl. capturedPixels s' = capture_birds (targetPixels s) fl (capturedPixels s))"
proof -
  from assms obtain s1 where s1: "spawn_wave (at_start c) s = Some s1"
    by (auto simp: flocking_def split: option.splits)
  then have p: "targetPixels s1 = targetPixels s \<and> capturedPixels s1 = capturedPixels s"
    by (rule spawn_wave_pixels)
  from assms s1 have "targetPixels s' = targetPixels s1" and
    "capturedPixels s' = capture_birds (targetPixels s1)
        (update_birds (at_bird c) (targetPixels s1) (capturedPixels s1) [] (flock s1))
        (capturedPixels s1)"
    by (auto simp: flocking_def Let_def)
  with p show ?thesis by auto
qed

lemma note_completion_pixels [simp]:
  "targetPixels (note_completion t s) = targetPixels s"
  "capturedPixels (note_completion t s) = capturedPixels s"
  "flock (note_completion t s) = flock s"
  by (simp_all add: note_completion_def Let_def)

lemma loop_cases:
  assumes "loop c s = Some s'"
  shows "(at_start c - lastUpdate s < 50 \<and> s' = s) \<or>
    (\<not> at_start c - lastUpdate s < 50 \<and>
      ((\<exists>fr. s' = (note_completion (at_start c) s)\<lparr>animationComplete := True, matrix := fr\<rparr>) \<or>
       (textComplete s \<and> (\<exists>fr. s' = (note_completion (at_start c) s)\<lparr>matrix := fr\<rparr>)) \<or>
       (\<not> textComplete s \<and>
         (\<exists>s3 fr. flocking c (note_completion (at_start c) s) = Some s3 \<and> s' = s3\<lparr>matrix := fr\<rparr>))))"
  using assms by (auto simp: loop_def Let_def split: if_splits option.splits)

lemma loop_pixels:
  assumes "loop c s = Some s'"
  shows "targetPixels s' = targetPixels s \<and>
    (capturedPixels s' = capturedPixels s \<or>
     (\<exists>fl. capturedPixels s' = capture_birds (targetPixels s) fl (capturedPixels s)))"
  using loop_cases [OF assms] by (auto dest!: flocking_pixels)

lemma loop_captured_grows:
  assumes "loop c s = Some s'"
  shows "capturedPixels s |\<subseteq>| capturedPixels s'"
  using loop_pixels [OF assms] by (auto simp: capture_birds_eq)

lemma loop_captured_new:
  assumes "loop c s = Some s'"
  shows "capturedPixels s' |-| capturedPixels s |\<subseteq>| targetPixels s"
  using loop_pixels [OF assms] by (auto simp: capture_birds_eq)

lemma loop_subset_kept:
  assumes "loop c s = Some s'" "capturedPixels s |\<subseteq>| targetPixels s"
  shows "capturedPixels s' |\<subseteq>| targetPixels s'"
  using loop_pixels [OF assms(1)] assms(2) by (auto simp: capture_birds_eq)

lemma run_subset_kept:
  "run cs s = Some s' \<Longrightarrow> capturedPixels s |\<subseteq>| targetPixels s \<Longrightarrow>
     capturedPixels s' |\<subseteq>| targetPixels s' \<and> targetPixels s' = targetPixels s"
proof (induction cs arbitrary: s)
  case Nil
  then show ?case by simp
next
  case (Cons c cs)
  from Cons.prems(1) obtain s1 where s1: "loop c s = Some s1" and r: "run cs s1 = Some s'"
    by (auto split: option.splits)
  have t: "targetPixels s1 = targetPixels s"
    using loop_pixels [OF s1] by simp
  have "capturedPixels s1 |\<subseteq>| targetPixels s1"
    using s1 Cons.prems(2) by (rule loop_subset_kept)
  with r have "capturedPixels s' |\<subseteq>| targetPixels s' \<and> targetPixels s' = targetPixels s1"
    by (rule Cons.IH)
  with t show ?case by auto
qed

text \<open>
  Claim C1. In every call of \<open>loop\<close> the target mask stays the same, the captured set only
  grows, what it gains are coordinates of the target mask, and its size does not
  decrease; if it was inside the target mask it still is. So in every state that a run
  reaches from an empty captured set, in particular from the state that \<open>setup\<close> leaves,
  the captured set is inside the target mask.
\<close>

theorem captured_grows_inside_target:
  "(loop c s = Some s' \<longrightarrow>
      targetPixels s' = targetPixels s \<and>
      capturedPixels s |\<subseteq>| capturedPixels s' \<and>
      capturedPixels s' |-| capturedPixels s |\<subseteq>| targetPixels s \<and>
      fcard (capturedPixels s) \<le> fcard (capturedPixels s') \<and>
      (capturedPixels s |\<subseteq>| targetPixels s \<longrightarrow> capturedPixels s' |\<subseteq>| targetPixels s')) \<and>
   (capturedPixels s0 = {||} \<and> run cs s0 = Some s \<longrightarrow> capturedPixels s |\<subseteq>| targetPixels s) \<and>
   (run cs (setup_sim pixels now g) = Some s \<longrightarrow> capturedPixels s |\<subseteq>| pixels)"
proof -
  have "capturedPixels s |\<subseteq>| targetPixels s" if "capturedPixels s0 = {||}" "run cs s0 = Some s"
    using run_subset_kept [OF that(2)] that(1) by auto
  moreover have "capturedPixels s |\<subseteq>| pixels" if "run cs (setup_sim pixels now g) = Some s"
    using run_subset_kept [OF that] by (auto simp: setup_sim_def)
  moreover have "fcard (capturedPixels s) \<le> fcard (capturedPixels s')" if "loop c s = Some s'"
    using loop_captured_grows [OF that] by (rule fcard_mono)
  ultimately show ?thesis
    using loop_pixels loop_captured_grows loop_captured_new loop_subset_kept by blast
qed

text \<open>
  The frame of \<open>demo\<close> at millisecond 100: the bird flaps, stays on the pixel \<open>(5, 5)\<close>
  and captures it.
\<close>

lemma fcard_two: "fcard {|Position 5 5, Position 6 5|} = 2"
  by (simp add: fcard_finsert_if)

lemma c_round_near:
  assumes "\<bar>d\<bar> < 1 / 2" "1 \<le> n"
  shows "c_round (of_int n + d) = n"
proof -
  have "\<lfloor>of_int n + d + 1 / 2\<rfloor> = n" using assms(1) by linarith
  moreover have "(1::real) \<le> of_int n" using assms(2) by simp
  then have "0 \<le> of_int n + d" using assms(1) by linarith
  ultimately show ?thesis by (simp add: c_round_def)
qed

lemma flap_small:
  assumes t: "\<bar>t\<bar> \<le> 1" and k: "\<bar>k\<bar> \<le> 1 / 10"
  shows "\<bar>f32 (f32 (f32 (k * f32 t)))\<bar> \<le> 1 / 4"
proof -
  have "\<bar>t\<bar> \<le> 4" using t by simp
  then have "\<bar>f32 t - t\<bar> \<le> 1 / 4000000" by (rule f32_near)
  with t have a: "\<bar>f32 t\<bar> \<le> 2" by linarith
  have "\<bar>k\<bar> * \<bar>f32 t\<bar> \<le> 1 / 10 * 2"
    using k a by (intro mult_mono) simp_all
  then have b: "\<bar>k * f32 t\<bar> \<le> 1 / 5" by (simp add: abs_mult)
  then have "\<bar>k * f32 t\<bar> \<le> 4" by simp
  then have "\<bar>f32 (k * f32 t) - k * f32 t\<bar> \<le> 1 / 4000000" by (rule f32_near)
  with b have c: "\<bar>f32 (k * f32 t)\<bar> \<le> 1 / 5 + 1 / 4000000" by linarith
  then have "\<bar>f32 (k * f32 t)\<bar> \<le> 4" by simp
  then have "\<bar>f32 (f32 (k * f32 t)) - f32 (k * f32 t)\<bar> \<le> 1 / 4000000" by (rule f32_near)
  with c have d: "\<bar>f32 (f32 (k * f32 t))\<bar> \<le> 1 / 5 + 2 / 4000000" by linarith
  then have "\<bar>f32 (f32 (k * f32 t))\<bar> \<le> 4" by simp
  then have "\<bar>f32 (f32 (f32 (k * f32 t))) - f32 (f32 (k * f32 t))\<bar> \<le> 1 / 4000000"
    by (rule f32_near)
  with d show ?thesis by linarith
qed

lemma f32_near8:
  assumes "\<bar>a\<bar> \<le> 8"
  shows "\<bar>f32 a - a\<bar> \<le> 1 / 1000000"
  using f32_close [of a] assms by linarith

lemma step_small:
  assumes w: "\<bar>w\<bar> \<le> 1 / 4" and k: "\<bar>k\<bar> \<le> 1"
  shows "\<bar>f32 (5 + f32 (w * k)) - 5\<bar> \<le> 3 / 10"
proof -
  have "\<bar>w\<bar> * \<bar>k\<bar> \<le> 1 / 4 * 1"
    using w k by (intro mult_mono) simp_all
  then have a: "\<bar>w * k\<bar> \<le> 1 / 4" by (simp add: abs_mult)
  then have "\<bar>w * k\<bar> \<le> 4" by simp
  then have "\<bar>f32 (w * k) - w * k\<bar> \<le> 1 / 4000000" by (rule f32_near)
  with a have b: "\<bar>f32 (w * k)\<bar> \<le> 1 / 4 + 1 / 4000000" by linarith
  then have "\<bar>5 + f32 (w * k)\<bar> \<le> 8" by linarith
  then have "\<bar>f32 (5 + f32 (w * k)) - (5 + f32 (w * k))\<bar> \<le> 1 / 1000000"
    by (rule f32_near8)
  with b show ?thesis by linarith
qed

lemma flap_constants:
  "f32 100 = 100" "f32 (1 / 10) = 13421773 / 134217728"
  "f32 (13421773 / 16777216) = 13421773 / 16777216"
  "f32 (40265319 / 67108864) = 5033165 / 8388608"
  "f32 (5033165 / 8388608) = 5033165 / 8388608"
  "\<bar>f32 (1 / 20)\<bar> \<le> 1 / 10" "\<bar>f32 (3 / 100)\<bar> \<le> 1 / 10" "\<bar>f32 (2 / 5)\<bar> \<le> 1"
  by (simp_all add: f32_eval)

lemma flapped_velocity:
  "\<bar>vec_x (velocity flapped)\<bar> \<le> 1 / 4" "\<bar>vec_y (velocity flapped)\<bar> \<le> 1 / 4"
proof -
  have s: "\<bar>sin (13421773 / 16777216 :: real)\<bar> \<le> 1"
    and c: "\<bar>cos (5033165 / 8388608 :: real)\<bar> \<le> 1"
    by (rule abs_sin_le_one, rule abs_cos_le_one)
  show "\<bar>vec_x (velocity flapped)\<bar> \<le> 1 / 4"
    using flap_small [OF s flap_constants(6)] by (simp add: flapped_def Let_def)
  show "\<bar>vec_y (velocity flapped)\<bar> \<le> 1 / 4"
    using flap_small [OF c flap_constants(7)] by (simp add: flapped_def Let_def)
qed

lemma flapped_position:
  "\<bar>vec_x (position flapped) - 5\<bar> \<le> 3 / 10" "\<bar>vec_y (position flapped) - 5\<bar> \<le> 3 / 10"
  using step_small [OF flapped_velocity(1) flap_constants(8)]
    step_small [OF flapped_velocity(2) flap_constants(8)]
  by (simp_all add: flapped_def Let_def vec_add_def vec_mul_def)

lemma lone_bird_rules:
  "separationRule this 0 [this] = Vector2D 0 0"
  "alignmentRule this 0 [this] = Vector2D 0 0"
  "cohesionRule this 0 [this] = Vector2D 0 0"
  "attractionRule this tp cp None = Vector2D 0 0"
  by (simp_all add: separationRule_def alignmentRule_def cohesionRule_def attractionRule_def)

lemma updated_demo_bird:
  "updateFlocking (bird_at 5 5) 0 [bird_at 5 5] tp cp None 100 = flapped"
proof -
  have v: "steered_velocity (bird_at 5 5) 0 [bird_at 5 5] tp cp None 100 = velocity flapped"
    by (simp add: steered_velocity_def lone_bird_rules bird_at_def vec_add_def vec_mul_def
        Let_def flapped_def flap_constants(1-5))
  obtain x y where xy: "velocity flapped = Vector2D x y"
    by (cases "velocity flapped")
  have "\<bar>x\<bar> \<le> 1 / 4" "\<bar>y\<bar> \<le> 1 / 4"
    using flapped_velocity by (simp_all add: xy)
  then have "\<bar>x\<bar> * \<bar>x\<bar> \<le> 1 / 4 * (1 / 4)" "\<bar>y\<bar> * \<bar>y\<bar> \<le> 1 / 4 * (1 / 4)"
    by (intro mult_mono; simp)+
  then have "x * x + y * y \<le> 1" by simp
  then have "magnitude (Vector2D x y) \<le> 2" by (rule magnitude_small)
  then have l: "limit_velocity (velocity flapped) = velocity flapped"
    by (simp add: limit_velocity_def Let_def xy)
  show ?thesis
    unfolding updateFlocking_def v l Let_def
    by (simp add: flapped_def bird_at_def Let_def)
qed

lemma flapped_facts:
  "isOnScreen flapped" "getPixelPos flapped = Position 5 5" "\<not> flown_off flapped"
proof -
  define dx where "dx = vec_x (position flapped) - 5"
  define dy where "dy = vec_y (position flapped) - 5"
  have x: "vec_x (position flapped) = of_int 5 + dx" and y: "vec_y (position flapped) = of_int 5 + dy"
    by (simp_all add: dx_def dy_def)
  have d: "\<bar>dx\<bar> \<le> 3 / 10" "\<bar>dy\<bar> \<le> 3 / 10"
    using flapped_position by (simp_all add: dx_def dy_def)
  show "isOnScreen flapped"
    unfolding isOnScreen_def x y WIDTH_def HEIGHT_def using d by simp linarith
  show "\<not> flown_off flapped"
    unfolding flown_off_def x y using d by simp linarith
  have "c_round (of_int 5 + dx) = 5" "c_round (of_int 5 + dy) = 5"
    using d by (intro c_round_near; simp)+
  then show "getPixelPos flapped = Position 5 5"
    unfolding getPixelPos_def x y by simp
qed

lemma demo_flocking:
  "flocking (tick 100) (note_completion 100 demo) =
     Some (demo\<lparr>lastUpdate := 100, capturedPixels := {|Position 5 5|}, flock := [flapped]\<rparr>)"
  by (simp add: flocking_def spawn_wave_def note_completion_def textComplete_def tick_def demo_def
      fcard_two fcard_fempty Let_def spawnInterval_def updated_demo_bird cleanup_def flapped_facts)

lemma demo_loop:
  "loop (tick 100) demo =
     Some (demo\<lparr>lastUpdate := 100, capturedPixels := {|Position 5 5|}, flock := [flapped],
       matrix := \<lparr>text_pixels = {|(Position 5 5, Color 255 138 0)|},
         bird_pixels = [(Position 5 5, Color 204 75 20)]\<rparr>\<rparr>)"
proof -
  have a: "at_start (tick 100) = 100" by (simp add: tick_def)
  have b: "\<not> textComplete demo" by (simp add: textComplete_def demo_def fcard_two fcard_fempty)
  have c: "completionTime (note_completion 100 demo) = 0"
    using b by (simp add: note_completion_def textComplete_def demo_def)
  have d: "lastUpdate demo = 0" "startTime demo = 0" by (simp_all add: demo_def)
  have e: "getDynamicTextColor (13421773 / 134217728) (Position 5 5) = Some (Color 255 138 0)"
    by (simp add: getDynamicTextColor_def) (simp add: hsv_eval)
  have f: "getDynamicFlockColor (13421773 / 134217728) 0 = Some (Color 204 75 20)"
    by (simp add: getDynamicFlockColor_def) (simp add: hsv_eval)
  show ?thesis
    by (simp add: loop_def a b c d demo_flocking render_def draw_text_def e f flapped_facts
        flap_constants(1-2))
qed

theorem captured_grows_inside_target_witness:
  "loop (tick 100) demo \<noteq> None \<and>
   capturedPixels demo = {||} \<and>
   capturedPixels (the (loop (tick 100) demo)) = {|Position 5 5|} \<and>
   targetPixels (the (loop (tick 100) demo)) = {|Position 5 5, Position 6 5|} \<and>
   fcard (capturedPixels demo) \<le> fcard (capturedPixels (the (loop (tick 100) demo))) \<and>
   capturedPixels (the (run [tick 100] demo)) |\<subseteq>| targetPixels (the (run [tick 100] demo))"
  using captured_grows_inside_target [of "tick 100" demo "the (loop (tick 100) demo)" demo
      "[tick 100]"]
  by (simp add: demo_loop) (simp add: demo_def)

section \<open>Pixel positions of birds on the screen\<close>

lemma fmod_one_nonneg_ge: "0 \<le> a \<Longrightarrow> 0 \<le> fmod a 1"
  by (simp add: fmod_one_nonneg)

lemma colour_constants:
  "0 \<le> f32 (1 / 10)" "0 \<le> f32 (2 / 10)" "0 \<le> f32 (3 / 10)"
  "0 \<le> f32 (9 / 10)" "f32 (9 / 10) \<le> 1" "0 \<le> f32 (8 / 10)" "f32 (8 / 10) \<le> 1"
  by (simp_all add: f32_eval)

lemma getDynamicFlockColor_defined:
  assumes "0 \<le> t"
  shows "\<exists>col. getDynamicFlockColor t (int i) = Some col"
proof -
  have a: "0 \<le> f32 (t * (1 / 2))"
    using assms by (intro f32_nonneg) simp
  have "0 \<le> f32 (of_int (int i))"
    by (rule f32_nonneg) simp
  then have "0 \<le> f32 (of_int (int i)) * f32 (1 / 10)"
    using colour_constants(1) by (rule mult_nonneg_nonneg)
  then have b: "0 \<le> f32 (f32 (of_int (int i)) * f32 (1 / 10))"
    by (rule f32_nonneg)
  from add_nonneg_nonneg [OF a b]
  have "0 \<le> f32 (f32 (t * (1 / 2)) + f32 (f32 (of_int (int i)) * f32 (1 / 10)))"
    by (rule f32_nonneg)
  then have "0 \<le> fmod (f32 (f32 (t * (1 / 2)) + f32 (f32 (of_int (int i)) * f32 (1 / 10)))) 1"
    by (rule fmod_one_nonneg_ge)
  then have "\<exists>col. hsvToRgb
      (fmod (f32 (f32 (t * (1 / 2)) + f32 (f32 (of_int (int i)) * f32 (1 / 10)))) 1)
      (f32 (9 / 10)) (f32 (8 / 10)) = Some col"
    using colour_constants by (intro hsvToRgb_defined)
  then show ?thesis
    by (simp add: getDynamicFlockColor_def)
qed



section \<open>The cleanup step\<close>

lemma flown_off_iff: "flown_off bird \<longleftrightarrow> \<not> within_margin bird"
  by (auto simp: flown_off_def within_margin_def WIDTH_def HEIGHT_def)

lemma set_cleanup: "set (cleanup fl) = {bird \<in> set fl. within_margin bird}"
  by (simp add: cleanup_def flown_off_iff)

lemma flocking_flock:
  "flocking c s = Some s' \<Longrightarrow> \<exists>fl. flock s' = cleanup fl"
  by (auto simp: flocking_def Let_def split: option.splits)

lemma loop_running:
  assumes "loop c s = Some s'" "\<not> at_start c - lastUpdate s < 50" "\<not> textComplete s"
    "completionTime s = 0"
  shows "\<exists>s3 fr. flocking c (note_completion (at_start c) s) = Some s3 \<and> s' = s3\<lparr>matrix := fr\<rparr>"
proof -
  have "completionTime (note_completion (at_start c) s) = 0"
    using assms(3,4) by (simp add: note_completion_def textComplete_def Let_def)
  with assms show ?thesis
    by (auto simp: loop_def Let_def split: option.splits)
qed

text \<open>
  Claim C3. After the cleanup step every bird left in the flock is within the extended
  bounds, every bird of the flock outside them is gone, and so is any bird with
  \<open>x = - 30\<close>. The same holds for the flock that the \<open>!textComplete\<close> block leaves, since
  the cleanup is its last step, and so for the flock after every call of \<open>loop\<close> that
  runs this block (past the 50 ms gate, text incomplete, completion time not set).
\<close>

theorem cleanup_leaves_within_margin:
  "(\<forall>bird \<in> set (cleanup fl). within_margin bird) \<and>
   (\<forall>bird \<in> set fl. \<not> within_margin bird \<longrightarrow> bird \<notin> set (cleanup fl)) \<and>
   (\<forall>bird. vec_x (position bird) = - 30 \<longrightarrow> bird \<notin> set (cleanup fl)) \<and>
   (flocking c s = Some s' \<longrightarrow>
      (\<forall>bird \<in> set (flock s'). within_margin bird \<and> vec_x (position bird) \<noteq> - 30)) \<and>
   (loop c s = Some s' \<and> \<not> at_start c - lastUpdate s < 50 \<and> \<not> textComplete s \<and>
    completionTime s = 0 \<longrightarrow>
      (\<forall>bird \<in> set (flock s'). within_margin bird \<and> vec_x (position bird) \<noteq> - 30))"
proof -
  have a: "\<forall>bird \<in> set (cleanup fl). within_margin bird" for fl
    by (simp add: set_cleanup)
  have b: "\<forall>bird \<in> set fl. \<not> within_margin bird \<longrightarrow> bird \<notin> set (cleanup fl)"
    by (simp add: set_cleanup)
  have c: "\<not> within_margin bird" if "vec_x (position bird) = - 30" for bird
    using that by (simp add: within_margin_def)
  have d: "\<forall>bird. vec_x (position bird) = - 30 \<longrightarrow> bird \<notin> set (cleanup fl)" for fl
    using c by (auto simp: set_cleanup)
  have e: "\<forall>bird \<in> set (flock s'). within_margin bird \<and> vec_x (position bird) \<noteq> - 30"
    if "flocking c s = Some s'" for s s'
  proof -
    from that obtain fl' where "flock s' = cleanup fl'"
      using flocking_flock by blast
    then show ?thesis using a [of fl'] d [of fl'] by auto
  qed
  have f: "\<forall>bird \<in> set (flock s'). within_margin bird \<and> vec_x (position bird) \<noteq> - 30"
    if "loop c s = Some s'" "\<not> at_start c - lastUpdate s < 50" "\<not> textComplete s"
      "completionTime s = 0"
  proof -
    from loop_running [OF that] obtain s3 fr
      where "flocking c (note_completion (at_start c) s) = Some s3" "s' = s3\<lparr>matrix := fr\<rparr>"
      by blast
    with e [of "note_completion (at_start c) s" s3] show ?thesis by simp
  qed
  from a b d e f show ?thesis by blast
qed

text \<open>
  Three birds, one at \<open>x = - 30\<close> and one at \<open>x = 95\<close>: only the one at \<open>(10, 10)\<close> stays.
  And the frame of \<open>demo\<close> at millisecond 100 leaves its bird, which is within the bounds.
\<close>

theorem cleanup_leaves_within_margin_witness:
  "cleanup [bird_at (- 30) 16, bird_at 10 10, bird_at 95 3] = [bird_at 10 10] \<and>
   within_margin (bird_at 10 10) \<and> \<not> within_margin (bird_at (- 30) 16) \<and>
   bird_at (- 30) 16 \<notin> set (cleanup [bird_at (- 30) 16, bird_at 10 10, bird_at 95 3]) \<and>
   flock (the (loop (tick 100) demo)) = [flapped] \<and> within_margin flapped"
  using cleanup_leaves_within_margin [of "[bird_at (- 30) 16, bird_at 10 10, bird_at 95 3]"
      "tick 100" demo "the (loop (tick 100) demo)"]
  by (simp add: demo_loop)
    (simp add: cleanup_def flown_off_def within_margin_def bird_at_def WIDTH_def HEIGHT_def
      demo_def tick_def textComplete_def fcard_two fcard_fempty)

text \<open>
  Claim C9. The comparisons of the despawn test are strict: a bird on the border of the
  extended bounds (\<open>x = - 25\<close>, \<open>x = 89\<close>, \<open>y = - 25\<close> or \<open>y = 57\<close>, the other coordinate
  within the bounds) does not satisfy the test and stays in the flock.
\<close>

theorem boundary_bird_survives:
  assumes "position bird = Vector2D px py"
    and "- 25 \<le> px" "px \<le> 89" "- 25 \<le> py" "py \<le> 57"
    and "px = - 25 \<or> px = 89 \<or> py = - 25 \<or> py = 57"
    and "bird \<in> set fl"
  shows "\<not> flown_off bird \<and> bird \<in> set (cleanup fl)"
  using assms by (simp add: flown_off_def cleanup_def)

text \<open>One bird on each of the four borders.\<close>

theorem boundary_bird_survives_witness:
  "\<not> flown_off (bird_at (- 25) 16) \<and> \<not> flown_off (bird_at 89 16) \<and>
   \<not> flown_off (bird_at 32 (- 25)) \<and> \<not> flown_off (bird_at 32 57) \<and>
   cleanup [bird_at (- 25) 16, bird_at 89 16, bird_at 32 (- 25), bird_at 32 57] =
     [bird_at (- 25) 16, bird_at 89 16, bird_at 32 (- 25), bird_at 32 57]"
  using boundary_bird_survives [of "bird_at (- 25) 16" "- 25" 16 "[bird_at (- 25) 16]"]
    boundary_bird_survives [of "bird_at 89 16" 89 16 "[bird_at 89 16]"]
    boundary_bird_survives [of "bird_at 32 (- 25)" 32 "- 25" "[bird_at 32 (- 25)]"]
    boundary_bird_survives [of "bird_at 32 57" 32 57 "[bird_at 32 57]"]
  by (simp add: bird_at_def cleanup_def flown_off_def)
section \<open>Spawning\<close>



lemma create_formation_length: "length (fst (create_formation bx by fd i n g)) = n"
  by (induction n arbitrary: i g) (simp_all add: Let_def split_def)

lemma createFlockFromDirection_length:
  "length (fst (createFlockFromDirection numBirds d g)) = nat numBirds"
  by (simp add: createFlockFromDirection_def split_def create_formation_length)

lemma direction_at_defined:
  assumes "0 \<le> i" "i < 8"
  shows "\<exists>d. direction_at i = Some d \<and> d \<in> set directions"
proof -
  have l: "length directions = 8" by (simp add: directions_def)
  then have "nat i < length directions" using assms by simp
  then have "directions ! nat i \<in> set directions" by (rule nth_mem)
  then show ?thesis using assms l by (simp add: direction_at_def)
qed

text \<open>
  Claim C7. When the spawn block fires (target pixels remain, more than 3000 ms since the
  last spawn, fewer than 200 birds), the flock grows by exactly \<open>min(50, remaining)\<close> new
  birds, where \<open>remaining\<close> is the size of the target mask minus the size of the captured
  set: the number of target pixels not yet captured, the captured set being inside the
  target mask.
\<close>

theorem spawn_wave_size:
  assumes remaining: "int (fcard (targetPixels s)) - int (fcard (capturedPixels s)) > 0"
    and due: "real (unat ((currentTime - startTime s) - lastSpawnTime s)) > 3000"
    and room: "length (flock s) < 200"
    and idx: "0 \<le> currentDirectionIdx s" "currentDirectionIdx s < 8"
  shows "\<exists>s' newFlock. spawn_wave currentTime s = Some s' \<and> flock s' = flock s @ newFlock \<and>
    int (length newFlock) =
      min 50 (int (fcard (targetPixels s)) - int (fcard (capturedPixels s))) \<and>
    (capturedPixels s |\<subseteq>| targetPixels s \<longrightarrow>
       int (length newFlock) = min 50 (int (fcard (targetPixels s |-| capturedPixels s))))"
proof -
  define k where "k = min 50 (int (fcard (targetPixels s)) - int (fcard (capturedPixels s)))"
  obtain d where d: "direction_at (currentDirectionIdx s) = Some d"
    using direction_at_defined [OF idx] by blast
  obtain newFlock g where n: "createFlockFromDirection k d (generator s) = (newFlock, g)"
    by (cases "createFlockFromDirection k d (generator s)") auto
  have "length newFlock = nat k"
    using createFlockFromDirection_length [of k d "generator s"] n by simp
  moreover have "0 < k" using remaining by (simp add: k_def)
  ultimately have len: "int (length newFlock) = k" by simp
  have left: "int (fcard (targetPixels s |-| capturedPixels s)) =
      int (fcard (targetPixels s)) - int (fcard (capturedPixels s))"
    if "capturedPixels s |\<subseteq>| targetPixels s"
    using fcard_funion_fsubset [OF that] fcard_mono [OF that] by simp
  have "spawn_wave currentTime s =
      Some (s\<lparr>flock := flock s @ newFlock, generator := g,
        currentDirectionIdx := (currentDirectionIdx s + 1) mod numDirections,
        lastSpawnTime := currentTime - startTime s\<rparr>)"
    using remaining due room d n
    by (simp add: spawn_wave_def Let_def spawnInterval_def k_def)
  with len left show ?thesis by (auto simp: k_def)
qed

text \<open>With three pixels remaining the wave has three birds, not fifty.\<close>

theorem spawn_wave_size_witness:
  "spawn_wave 3001 demo3 \<noteq> None \<and> length (flock (the (spawn_wave 3001 demo3))) = 3"
proof -
  have t: "fcard (targetPixels demo3) = 3"
    by (simp add: demo3_def fcard_finsert_if fcard_fempty)
  have c: "fcard (capturedPixels demo3) = 0"
    by (simp add: demo3_def fcard_fempty)
  have h1: "int (fcard (targetPixels demo3)) - int (fcard (capturedPixels demo3)) > 0"
    by (simp add: t c)
  have h2: "real (unat ((3001 - startTime demo3) - lastSpawnTime demo3)) > 3000"
    by (simp add: demo3_def)
  have h3: "length (flock demo3) < 200"
    by (simp add: demo3_def)
  have h4: "0 \<le> currentDirectionIdx demo3" "currentDirectionIdx demo3 < 8"
    by (simp_all add: demo3_def)
  have f: "flock demo3 = []" by (simp add: demo3_def)
  from spawn_wave_size [OF h1 h2 h3 h4] show ?thesis
    by (auto simp: t c f)
qed







section \<open>loop is defined on well-formed states\<close>

text \<open>
  From a well-formed state every call of \<open>loop\<close>, and so every run, returns a state, which
  is well-formed again: the premises \<open>loop c s = Some s'\<close> and \<open>run cs s = Some s'\<close> of the
  theorems in this theory can always be met.
\<close>

lemma getDynamicTextColor_defined:
  assumes "0 \<le> t" "0 \<le> pos_x p" "0 \<le> pos_y p"
  shows "\<exists>col. getDynamicTextColor t p = Some col"
proof -
  define po where "po = f32 (f32 (f32 (f32 (of_int (pos_x p)) / 64) +
    f32 (f32 (of_int (pos_y p)) / 32)) * f32 (3 / 10))"
  have "0 \<le> f32 (of_int (pos_x p))"
    using assms(2) by (intro f32_nonneg) simp
  then have "0 \<le> f32 (of_int (pos_x p)) / 64" by simp
  then have x: "0 \<le> f32 (f32 (of_int (pos_x p)) / 64)" by (rule f32_nonneg)
  have "0 \<le> f32 (of_int (pos_y p))"
    using assms(3) by (intro f32_nonneg) simp
  then have "0 \<le> f32 (of_int (pos_y p)) / 32" by simp
  then have y: "0 \<le> f32 (f32 (of_int (pos_y p)) / 32)" by (rule f32_nonneg)
  from add_nonneg_nonneg [OF x y]
  have "0 \<le> f32 (f32 (f32 (of_int (pos_x p)) / 64) + f32 (f32 (of_int (pos_y p)) / 32))"
    by (rule f32_nonneg)
  then have "0 \<le> f32 (f32 (f32 (of_int (pos_x p)) / 64) + f32 (f32 (of_int (pos_y p)) / 32)) *
      f32 (3 / 10)"
    using colour_constants(3) by (rule mult_nonneg_nonneg)
  then have po: "0 \<le> po"
    unfolding po_def by (rule f32_nonneg)
  have "0 \<le> t * f32 (2 / 10)"
    using assms(1) colour_constants(2) by (rule mult_nonneg_nonneg)
  then have "0 \<le> f32 (t * f32 (2 / 10))" by (rule f32_nonneg)
  from add_nonneg_nonneg [OF this po]
  have "0 \<le> f32 (f32 (t * f32 (2 / 10)) + po)" by (rule f32_nonneg)
  then have "0 \<le> fmod (f32 (f32 (t * f32 (2 / 10)) + po)) 1"
    by (rule fmod_one_nonneg_ge)
  then have "\<exists>col. hsvToRgb (fmod (f32 (f32 (t * f32 (2 / 10)) + po)) 1) 1 1 = Some col"
    by (intro hsvToRgb_defined) simp_all
  then show ?thesis
    by (simp add: getDynamicTextColor_def po_def)
qed

lemma draw_text_defined:
  assumes "0 \<le> t" "fBall cp (\<lambda>p. 0 \<le> pos_x p \<and> 0 \<le> pos_y p)"
  shows "\<exists>ts. draw_text t cp = Some ts"
proof -
  have "fBall cp (\<lambda>pixel. getDynamicTextColor t pixel \<noteq> None)"
    using assms getDynamicTextColor_defined [OF assms(1)] by fastforce
  then show ?thesis by (simp add: draw_text_def)
qed

lemma draw_birds_defined:
  assumes "0 \<le> t"
  shows "\<exists>ds. draw_birds t i fl = Some ds"
proof (induction fl arbitrary: i)
  case Nil
  show ?case by simp
next
  case (Cons bird rest)
  obtain col where "getDynamicFlockColor t (int i) = Some col"
    using getDynamicFlockColor_defined [OF assms] by blast
  moreover obtain ds where "draw_birds t (Suc i) rest = Some ds"
    using Cons.IH by blast
  ultimately show ?case by simp
qed

lemma render_defined:
  assumes "0 \<le> t" "fBall (capturedPixels s) (\<lambda>p. 0 \<le> pos_x p \<and> 0 \<le> pos_y p)"
  shows "\<exists>fr. render t s = Some fr"
proof -
  obtain ts where "draw_text t (capturedPixels s) = Some ts"
    using draw_text_defined [OF assms] by blast
  moreover obtain bs where "draw_birds t 0 (flock s) = Some bs"
    using draw_birds_defined [OF assms(1)] by blast
  ultimately show ?thesis by (simp add: render_def)
qed

lemma spawn_wave_defined:
  assumes "0 \<le> currentDirectionIdx s" "currentDirectionIdx s < numDirections"
  shows "\<exists>s'. spawn_wave t s = Some s' \<and> 0 \<le> currentDirectionIdx s' \<and>
    currentDirectionIdx s' < numDirections \<and> capturedPixels s' = capturedPixels s"
proof -
  obtain d where d: "direction_at (currentDirectionIdx s) = Some d"
    using direction_at_defined [of "currentDirectionIdx s"] assms
    by (auto simp: numDirections_def)
  show ?thesis
    using assms by (simp add: spawn_wave_def Let_def d numDirections_def split: prod.splits)
qed

lemma c_round_nonneg: "0 \<le> a \<Longrightarrow> 0 \<le> c_round a"
  by (simp add: c_round_def)

lemma getPixelPos_on_screen:
  "isOnScreen bird \<Longrightarrow> 0 \<le> pos_x (getPixelPos bird) \<and> 0 \<le> pos_y (getPixelPos bird)"
  by (simp add: isOnScreen_def getPixelPos_def c_round_nonneg)

lemma capture_birds_nonneg:
  assumes "fBall cp (\<lambda>p. 0 \<le> pos_x p \<and> 0 \<le> pos_y p)"
  shows "fBall (capture_birds tp fl cp) (\<lambda>p. 0 \<le> pos_x p \<and> 0 \<le> pos_y p)"
  using assms by (auto simp: capture_birds_eq fset_of_list.rep_eq dest: getPixelPos_on_screen)

lemma flocking_defined:
  assumes "well_formed s"
  shows "\<exists>s'. flocking c s = Some s' \<and> well_formed s'"
proof -
  from assms obtain s1 where s1: "spawn_wave (at_start c) s = Some s1"
    and i: "0 \<le> currentDirectionIdx s1" "currentDirectionIdx s1 < numDirections"
    and cp: "capturedPixels s1 = capturedPixels s"
    using spawn_wave_defined [of s "at_start c"] by (auto simp: well_formed_def)
  have "fBall (capturedPixels s1) (\<lambda>p. 0 \<le> pos_x p \<and> 0 \<le> pos_y p)"
    using assms cp by (simp add: well_formed_def)
  then have "fBall (capture_birds (targetPixels s1)
      (update_birds (at_bird c) (targetPixels s1) (capturedPixels s1) [] (flock s1))
      (capturedPixels s1)) (\<lambda>p. 0 \<le> pos_x p \<and> 0 \<le> pos_y p)"
    by (rule capture_birds_nonneg)
  then show ?thesis
    using s1 i by (simp add: flocking_def Let_def well_formed_def)
qed

lemma note_completion_well_formed:
  "well_formed s \<Longrightarrow> well_formed (note_completion t s)"
  by (simp add: well_formed_def note_completion_def Let_def)

lemma loop_defined:
  assumes "well_formed s"
  shows "\<exists>s'. loop c s = Some s' \<and> well_formed s'"
proof (cases "at_start c - lastUpdate s < 50")
  case True
  with assms show ?thesis by (simp add: loop_def)
next
  case False
  define s2 where "s2 = note_completion (at_start c) s"
  let ?t = "f32 (f32 (real (unat (at_start c - startTime s))) / 1000)"
  have w2: "well_formed s2"
    using assms by (simp add: s2_def note_completion_well_formed)
  have "0 \<le> f32 (real (unat (at_start c - startTime s)))"
    by (rule f32_nonneg) (rule of_nat_0_le_iff)
  then have "0 \<le> f32 (real (unat (at_start c - startTime s))) / 1000"
    by simp
  then have t: "0 \<le> ?t"
    by (rule f32_nonneg)
  obtain s3 where s3: "(if \<not> textComplete s then flocking c s2 else Some s2) = Some s3"
    and w3: "well_formed s3"
    using flocking_defined [OF w2, of c] w2 by (cases "textComplete s") auto
  obtain fr where fr: "render ?t s3 = Some fr"
    using render_defined [OF t, of s3] w3 by (auto simp: well_formed_def)
  have w4: "well_formed (s3\<lparr>matrix := fr\<rparr>)"
    using w3 by (simp add: well_formed_def)
  have w5: "well_formed (s2\<lparr>animationComplete := True,
      matrix := \<lparr>text_pixels = {||}, bird_pixels = []\<rparr>\<rparr>)"
    using w2 by (simp add: well_formed_def)
  show ?thesis
    using False s3 fr w4 w5
    by (simp add: loop_def Let_def s2_def [symmetric])
qed

lemma run_defined:
  "well_formed s \<Longrightarrow> \<exists>s'. run cs s = Some s' \<and> well_formed s'"
proof (induction cs arbitrary: s)
  case Nil
  then show ?case by simp
next
  case (Cons c cs)
  obtain s1 where "loop c s = Some s1" "well_formed s1"
    using loop_defined [OF Cons.prems] by blast
  with Cons.IH [of s1] show ?case by simp
qed

lemma setup_well_formed: "well_formed (setup_sim pixels now g)"
  by (simp add: well_formed_def setup_sim_def numDirections_def)

section \<open>The speed limit\<close>

text \<open>
  The limit compares the rounded magnitude with 3, and a velocity above it is divided by
  that magnitude and multiplied by 3, each component rounded after both steps. So what
  the limit leaves is a velocity whose length is 3 only up to these roundings: each
  component is within \<open>1 / 250000\<close> of the component of the vector of length 3 in the same
  direction, and the length is within \<open>1 / 125000\<close> of 3.
\<close>

lemma ratio_close:
  fixes x M mag :: real
  assumes M: "0 < M" and lo: "M - M / 2000000 \<le> mag" and hi: "mag \<le> M + M / 2000000"
    and x: "\<bar>x\<bar> \<le> M"
  shows "\<bar>x / mag - x / M\<bar> \<le> 1 / 1000000" "\<bar>x / mag\<bar> \<le> 1 + 1 / 1000000"
proof -
  have mag: "0 < mag" using M lo by linarith
  define g where "g = M / mag"
  define p where "p = x / M"
  have Mg: "M = mag * g" using mag by (simp add: g_def)
  have e1: "mag * (g - g / 2000000) = M - M / 2000000"
    using mag by (simp add: g_def field_simps)
  have "mag * (g - g / 2000000) \<le> mag * 1"
    unfolding e1 using lo by simp
  then have g1: "g - g / 2000000 \<le> 1"
    using mag by (simp only: mult_le_cancel_left_pos)
  have e2: "mag * (g + g / 2000000) = M + M / 2000000"
    using mag by (simp add: g_def field_simps)
  have "mag * 1 \<le> mag * (g + g / 2000000)"
    unfolding e2 using hi by simp
  then have g2: "1 \<le> g + g / 2000000"
    using mag by (simp only: mult_le_cancel_left_pos)
  have g: "\<bar>g - 1\<bar> \<le> 1 / 1000000"
    using g1 g2 by linarith
  have p: "\<bar>p\<bar> \<le> 1"
    using x M by (simp add: p_def)
  have xm: "x / mag = p * g" "x / M = p"
    using M mag by (simp_all add: p_def g_def)
  have "\<bar>p * g - p\<bar> = \<bar>p\<bar> * \<bar>g - 1\<bar>"
    by (simp add: abs_mult [symmetric] algebra_simps)
  also have "\<dots> \<le> 1 * \<bar>g - 1\<bar>"
    using p by (intro mult_right_mono) simp_all
  finally have d: "\<bar>p * g - p\<bar> \<le> 1 / 1000000"
    using g by simp
  then show "\<bar>x / mag - x / M\<bar> \<le> 1 / 1000000"
    by (simp only: xm)
  from d p show "\<bar>x / mag\<bar> \<le> 1 + 1 / 1000000"
    unfolding xm by linarith
qed

lemma limited_component:
  fixes x M mag :: real
  assumes M: "0 < M" and lo: "M - M / 2000000 \<le> mag" and hi: "mag \<le> M + M / 2000000"
    and x: "\<bar>x\<bar> \<le> M"
  shows "\<bar>f32 (f32 (x / mag) * 3) - 3 * (x / M)\<bar> \<le> 1 / 250000"
proof -
  note r = ratio_close [OF M lo hi x]
  have "\<bar>x / mag\<bar> \<le> 4" using r(2) by linarith
  then have n: "\<bar>f32 (x / mag) - x / mag\<bar> \<le> 1 / 4000000"
    by (rule f32_near)
  have "\<bar>f32 (x / mag) * 3\<bar> \<le> 4" using n r(2) by linarith
  then have w: "\<bar>f32 (f32 (x / mag) * 3) - f32 (x / mag) * 3\<bar> \<le> 1 / 4000000"
    by (rule f32_near)
  show ?thesis
    using r(1) n w by linarith
qed

lemma near_three:
  fixes a b p q :: real
  assumes pq: "p * p + q * q = 1"
    and a: "\<bar>a - 3 * p\<bar> \<le> 1 / 250000" and b: "\<bar>b - 3 * q\<bar> \<le> 1 / 250000"
  shows "\<bar>sqrt (a * a + b * b) - 3\<bar> \<le> 1 / 125000"
proof -
  have "(3 * p)\<^sup>2 + (3 * q)\<^sup>2 = 9 * (p * p + q * q)"
    by (simp add: power2_eq_square algebra_simps)
  then have "sqrt ((3 * p)\<^sup>2 + (3 * q)\<^sup>2) = sqrt (3\<^sup>2)"
    by (simp add: pq)
  then have three: "sqrt ((3 * p)\<^sup>2 + (3 * q)\<^sup>2) = 3"
    by simp
  have d: "sqrt ((a - 3 * p)\<^sup>2 + (b - 3 * q)\<^sup>2) \<le> \<bar>a - 3 * p\<bar> + \<bar>b - 3 * q\<bar>"
    by (rule sqrt_sum_squares_le_sum_abs)
  have d': "sqrt ((3 * p - a)\<^sup>2 + (3 * q - b)\<^sup>2) = sqrt ((a - 3 * p)\<^sup>2 + (b - 3 * q)\<^sup>2)"
    by (simp add: power2_commute)
  have e: "3 * p + (a - 3 * p) = a" "3 * q + (b - 3 * q) = b"
    "a + (3 * p - a) = 3 * p" "b + (3 * q - b) = 3 * q"
    by simp_all
  have u: "sqrt (a\<^sup>2 + b\<^sup>2) \<le> 3 + sqrt ((a - 3 * p)\<^sup>2 + (b - 3 * q)\<^sup>2)"
    using real_sqrt_sum_squares_triangle_ineq [of "3 * p" "a - 3 * p" "3 * q" "b - 3 * q"]
    by (simp only: e three)
  have l: "3 \<le> sqrt (a\<^sup>2 + b\<^sup>2) + sqrt ((a - 3 * p)\<^sup>2 + (b - 3 * q)\<^sup>2)"
    using real_sqrt_sum_squares_triangle_ineq [of a "3 * p - a" b "3 * q - b"]
    by (simp only: e three d')
  have "\<bar>sqrt (a\<^sup>2 + b\<^sup>2) - 3\<bar> \<le> 1 / 125000"
    using u l d a b by linarith
  then show ?thesis by (simp add: power2_eq_square)
qed

lemma exact_length_simp: "exact_length (Vector2D x y) = sqrt (x * x + y * y)"
  by (simp add: exact_length_def)

lemma limit_velocity_over:
  assumes over: "magnitude v > 3"
  shows "limit_velocity v = vec_mul (normalize v) 3"
    and "\<bar>vec_x (limit_velocity v) - 3 * vec_x v / exact_length v\<bar> \<le> 1 / 250000"
    and "\<bar>vec_y (limit_velocity v) - 3 * vec_y v / exact_length v\<bar> \<le> 1 / 250000"
    and "\<bar>exact_length (limit_velocity v) - 3\<bar> \<le> 1 / 125000"
    and "magnitude (limit_velocity v) \<le> 3 + 1 / 50000"
proof -
  obtain x y where v: "v = Vector2D x y" by (cases v)
  define M where "M = sqrt (x * x + y * y)"
  define mag where "mag = magnitude (Vector2D x y)"
  have mag3: "3 < mag" using over by (simp add: v mag_def)
  have S: "1 \<le> x * x + y * y"
  proof (rule ccontr)
    assume "\<not> 1 \<le> x * x + y * y"
    then have "magnitude (Vector2D x y) \<le> 2"
      by (intro magnitude_small) simp
    with mag3 show False by (simp add: mag_def)
  qed
  note c = magnitude_close [OF S, folded M_def mag_def]
  have "sqrt 1 \<le> M"
    unfolding M_def using S by (simp only: real_sqrt_le_iff)
  then have M: "0 < M" by simp
  have MM: "M * M = x * x + y * y"
    by (simp add: M_def)
  have x: "\<bar>x\<bar> \<le> M" and y: "\<bar>y\<bar> \<le> M"
    using abs_le_root [of x y] abs_le_root [of y x] by (simp_all add: M_def add.commute)
  show l: "limit_velocity v = vec_mul (normalize v) 3"
    using over by (simp add: limit_velocity_def Let_def)
  have w: "limit_velocity v = Vector2D (f32 (f32 (x / mag) * 3)) (f32 (f32 (y / mag) * 3))"
    using mag3 unfolding l [unfolded v] v mag_def by (simp add: normalize_def vec_mul_def Let_def)
  note cx = limited_component [OF M c x]
  note cy = limited_component [OF M c y]
  show "\<bar>vec_x (limit_velocity v) - 3 * vec_x v / exact_length v\<bar> \<le> 1 / 250000"
    using cx by (simp add: w [unfolded v] v exact_length_simp M_def [symmetric])
  show "\<bar>vec_y (limit_velocity v) - 3 * vec_y v / exact_length v\<bar> \<le> 1 / 250000"
    using cy by (simp add: w [unfolded v] v exact_length_simp M_def [symmetric])
  have "x / M * (x / M) + y / M * (y / M) = (x * x + y * y) / (M * M)"
    by (simp add: add_divide_distrib)
  also have "\<dots> = 1"
    using M by (simp add: MM [symmetric])
  finally have pq: "x / M * (x / M) + y / M * (y / M) = 1" .
  define a where "a = f32 (f32 (x / mag) * 3)"
  define b where "b = f32 (f32 (y / mag) * 3)"
  have n: "\<bar>sqrt (a * a + b * b) - 3\<bar> \<le> 1 / 125000"
    unfolding a_def b_def by (rule near_three [OF pq cx cy])
  then show "\<bar>exact_length (limit_velocity v) - 3\<bar> \<le> 1 / 125000"
    by (simp add: w exact_length_simp a_def b_def del: real_sqrt_abs2)
  have "1 \<le> sqrt (a * a + b * b)" using n by linarith
  then have "1\<^sup>2 \<le> (sqrt (a * a + b * b))\<^sup>2"
    by (intro power_mono) simp_all
  then have "1 \<le> a * a + b * b" by simp
  from magnitude_close(2) [OF this] n
  have "magnitude (Vector2D a b) \<le> 3 + 1 / 50000" by linarith
  then show "magnitude (limit_velocity v) \<le> 3 + 1 / 50000"
    by (simp add: w a_def b_def)
qed

lemma limit_velocity_under:
  assumes under: "magnitude v \<le> 3"
  shows "limit_velocity v = v" "exact_length v \<le> 3 + 1 / 50000"
proof -
  show "limit_velocity v = v"
    using under by (simp add: limit_velocity_def Let_def)
  obtain x y where v: "v = Vector2D x y" by (cases v)
  show "exact_length v \<le> 3 + 1 / 50000"
  proof (cases "1 \<le> x * x + y * y")
    case True
    from magnitude_close(1) [OF True] under show ?thesis
      unfolding v exact_length_simp by linarith
  next
    case False
    then have r: "sqrt (x * x + y * y) \<le> 1"
      by simp
    show ?thesis
      unfolding v exact_length_simp using r by linarith
  qed
qed

lemma updateFlocking_fields:
  "velocity (updateFlocking this i fl tp cp ac ms) =
     limit_velocity (steered_velocity this i fl tp cp ac ms)"
  "position (updateFlocking this i fl tp cp ac ms) =
     vec_add (position this)
       (vec_mul (velocity (updateFlocking this i fl tp cp ac ms)) (f32 0.4))"
  "phase (updateFlocking this i fl tp cp ac ms) = phase this"
  "speedMultiplier (updateFlocking this i fl tp cp ac ms) = speedMultiplier this"
  "separationRadius (updateFlocking this i fl tp cp ac ms) = separationRadius this"
  by (simp_all add: updateFlocking_def Let_def)

text \<open>
  The square root of a number between 4 and 16, rounded: the multiple \<open>k / 2\<^sup>2\<^sup>2\<close> such
  that the root lies strictly between \<open>(k - 1 / 2) / 2\<^sup>2\<^sup>2\<close> and \<open>(k + 1 / 2) / 2\<^sup>2\<^sup>2\<close>, a
  condition on the squares.
\<close>

lemma round_even_unique:
  assumes "of_int k - 1 / 2 < a" "a < of_int k + 1 / 2"
  shows "round_even a = k"
proof -
  have "\<lfloor>a\<rfloor> = k \<or> \<lfloor>a\<rfloor> = k - 1"
    using assms by linarith
  then show ?thesis
  proof
    assume f: "\<lfloor>a\<rfloor> = k"
    with assms show ?thesis
      by (simp add: round_even_def Let_def)
  next
    assume f: "\<lfloor>a\<rfloor> = k - 1"
    with assms have "1 / 2 < a - of_int (k - 1)" by simp
    with f show ?thesis
      by (simp add: round_even_def Let_def)
  qed
qed

lemma f32_sqrt:
  assumes t: "4 \<le> t" "t < 16"
    and k: "0 < k" "(2 * of_int k - 1)\<^sup>2 < t * 70368744177664"
      "t * 70368744177664 < (2 * of_int k + 1)\<^sup>2"
  shows "f32 (sqrt t) = of_int k / 4194304"
proof -
  define a where "a = sqrt t"
  have "sqrt 4 \<le> sqrt t" "sqrt t < sqrt 16"
    using t by (simp_all only: real_sqrt_le_iff real_sqrt_less_iff)
  moreover have "sqrt 4 = 2" "sqrt 16 = 4"
    using real_sqrt_abs [of 2] real_sqrt_abs [of 4] by simp_all
  ultimately have a: "2 \<le> a" "a < 4"
    by (simp_all add: a_def)
  have aa: "a * a = t"
    using t by (simp add: a_def)
  have b: "binade 300 \<bar>a\<bar> = 1"
    using a by (simp add: binade_numeral)
  have k0: "(0::real) < 2 * of_int k - 1" using k(1) by simp
  have "(2 * of_int k - 1)\<^sup>2 < (a * 8388608)\<^sup>2"
    using k(2) by (simp add: power2_eq_square aa [symmetric] algebra_simps)
  then have lo: "2 * of_int k - 1 < a * 8388608"
    using a by (intro power2_less_imp_less [of "2 * of_int k - 1" "a * 8388608"]) simp_all
  have "(a * 8388608)\<^sup>2 < (2 * of_int k + 1)\<^sup>2"
    using k(3) by (simp add: power2_eq_square aa [symmetric] algebra_simps)
  then have hi: "a * 8388608 < 2 * of_int k + 1"
    using k0 by (intro power2_less_imp_less [of "a * 8388608" "2 * of_int k + 1"]) simp_all
  have r: "round_even (a * 4194304) = k"
    using lo hi by (intro round_even_unique) simp_all
  have "f32 a = of_int k / 4194304"
    using a b r by (simp add: f32_def Let_def power_int_def power_divide)
  then show ?thesis by (simp add: a_def)
qed

text \<open>
  A lone bird flying at the limit, updated at millisecond 0, where the sine is 0 and the
  cosine 1: the vertical wing-flapping term, the float \<open>0.03\<close>, takes it above the limit.
\<close>

lemma glider_steered:
  "steered_velocity glider 0 [glider] tp cp None 0 = Vector2D 3 (16106127 / 536870912)"
proof -
  have a: "f32 3 = 3" by (simp add: f32_eval)
  have b: "f32 (3 / 100) = 16106127 / 536870912" by (simp add: f32_eval)
  have c: "f32 (16106127 / 536870912) = 16106127 / 536870912" by (simp add: f32_eval)
  have d: "f32 1 = 1" by (simp add: f32_eval)
  show ?thesis
    by (simp add: steered_velocity_def lone_bird_rules glider_def vec_add_def vec_mul_def
        Let_def a b c d)
qed

lemma glider_magnitude:
  "magnitude (Vector2D 3 (16106127 / 536870912)) = 12583541 / 4194304"
proof -
  have a: "f32 9 = 9" by (simp add: f32_eval)
  have b: "f32 (259407326940129 / 288230376151711744) = 7730941 / 8589934592"
    by (simp add: f32_eval)
  have c: "f32 (77317142269 / 8589934592) = 589883 / 65536"
    by (simp add: f32_eval)
  have d: "f32 (sqrt (589883 / 65536)) = 12583541 / 4194304"
    using f32_sqrt [of "589883 / 65536" 12583541] by simp
  show ?thesis
    by (simp add: magnitude_def a b c d)
qed

lemma glider_limited:
  "limit_velocity (Vector2D 3 (16106127 / 536870912)) =
     Vector2D (12582283 / 4194304) (8052661 / 268435456)"
proof -
  have a: "f32 (12582912 / 12583541) = 16776377 / 16777216"
    by (simp add: f32_eval)
  have b: "f32 (16106127 / 1610693248) = 10736881 / 1073741824"
    by (simp add: f32_eval)
  have c: "f32 (50329131 / 16777216) = 12582283 / 4194304"
    by (simp add: f32_eval)
  have d: "f32 (32210643 / 1073741824) = 8052661 / 268435456"
    by (simp add: f32_eval)
  show ?thesis
    by (simp add: limit_velocity_def normalize_def glider_magnitude vec_mul_def Let_def a b c d)
qed

lemma glider_limited_magnitude:
  "magnitude (Vector2D (12582283 / 4194304) (8052661 / 268435456)) = 12582913 / 4194304"
proof -
  have a: "f32 (158313845492089 / 17592186044416) = 9436241 / 1048576"
    by (simp add: f32_eval)
  have b: "f32 (64845349180921 / 72057594037927936) = 966271 / 1073741824"
    by (simp add: f32_eval)
  have c: "f32 (9663677055 / 1073741824) = 9437185 / 1048576"
    by (simp add: f32_eval)
  have d: "f32 (sqrt (9437185 / 1048576)) = 12582913 / 4194304"
    using f32_sqrt [of "9437185 / 1048576" 12582913] by simp
  show ?thesis
    by (simp add: magnitude_def a b c d)
qed

lemma glider_moved:
  "vec_add (Vector2D 5 5)
     (vec_mul (Vector2D (12582283 / 4194304) (8052661 / 268435456)) (f32 (4 / 10))) =
   Vector2D (13002217 / 2097152) (10510925 / 2097152)"
proof -
  have a: "f32 (2 / 5) = 13421773 / 33554432" by (simp add: f32_eval)
  have b: "f32 (168876546247759 / 140737488355328) = 10065827 / 8388608"
    "f32 (108080987987953 / 9007199254740992) = 6442129 / 536870912"
    by (simp_all add: f32_eval)
  have c: "f32 (52008867 / 8388608) = 13002217 / 2097152"
    "f32 (2690796689 / 536870912) = 10510925 / 2097152"
    by (simp_all add: f32_eval)
  show ?thesis
    by (simp add: vec_add_def vec_mul_def a b c)
qed

lemma glider_updated:
  "velocity (updateFlocking glider 0 [glider] {||} {||} None 0) =
     Vector2D (12582283 / 4194304) (8052661 / 268435456)"
  "position (updateFlocking glider 0 [glider] {||} {||} None 0) =
     Vector2D (13002217 / 2097152) (10510925 / 2097152)"
proof -
  show v: "velocity (updateFlocking glider 0 [glider] {||} {||} None 0) =
      Vector2D (12582283 / 4194304) (8052661 / 268435456)"
    by (simp only: updateFlocking_fields(1) glider_steered glider_limited)
  have p: "position glider = Vector2D 5 5"
    by (simp add: glider_def)
  have "vec_add (position glider)
      (vec_mul (velocity (updateFlocking glider 0 [glider] {||} {||} None 0)) (f32 0.4)) =
      Vector2D (13002217 / 2097152) (10510925 / 2097152)"
    unfolding v p using glider_moved by simp
  then show "position (updateFlocking glider 0 [glider] {||} {||} None 0) =
      Vector2D (13002217 / 2097152) (10510925 / 2097152)"
    by (simp only: updateFlocking_fields(2))
qed

text \<open>
  Claim C8, as stated, fails. The lone bird \<open>glider\<close> has velocity \<open>(3, 0)\<close>; updated at
  millisecond 0 its steered velocity is \<open>(3, 0.03f)\<close>, of magnitude above 3, so the limit
  rescales it. The velocity it is left with has magnitude above 3, both as \<open>magnitude\<close>
  computes it (\<open>12582913 / 2\<^sup>2\<^sup>2\<close>, the float after 3) and as a real number; and its new
  position is the rounded sum of the old one and the rounded product of that velocity
  with the float nearest to \<open>0.4\<close>.
\<close>

theorem updateFlocking_exceeds_limit_counterexample:
  "velocity (updateFlocking glider 0 [glider] {||} {||} None 0) =
     Vector2D (12582283 / 4194304) (8052661 / 268435456) \<and>
   magnitude (velocity (updateFlocking glider 0 [glider] {||} {||} None 0)) =
     12582913 / 4194304 \<and>
   3 < magnitude (velocity (updateFlocking glider 0 [glider] {||} {||} None 0)) \<and>
   3 < exact_length (velocity (updateFlocking glider 0 [glider] {||} {||} None 0)) \<and>
   position (updateFlocking glider 0 [glider] {||} {||} None 0) =
     Vector2D (13002217 / 2097152) (10510925 / 2097152)"
proof -
  have "3\<^sup>2 < 12582283 / 4194304 * (12582283 / 4194304) +
      8052661 / 268435456 * (8052661 / 268435456 :: real)"
    by simp
  then have "3 < sqrt (12582283 / 4194304 * (12582283 / 4194304) +
      8052661 / 268435456 * (8052661 / 268435456 :: real))"
    by (rule real_less_rsqrt)
  then have "3 < exact_length (Vector2D (12582283 / 4194304) (8052661 / 268435456))"
    by (simp only: exact_length_simp)
  then show ?thesis
    by (simp add: glider_updated glider_limited_magnitude)
qed

text \<open>
  Claim C8, amended. Take an update whose steered velocity has components of absolute
  value at most \<open>2\<^sup>6\<^sup>0\<close>, so that its squares are in the range of a float. The velocity it
  leaves has length at most \<open>3 + 1 / 50000\<close>, both as a real number and as \<open>magnitude\<close>
  computes it. When the magnitude of the steered velocity is above 3, the velocity left
  is the normalised steered velocity times 3: its length is within \<open>1 / 125000\<close> of 3 and
  each component is within \<open>1 / 250000\<close> of the component of the steered velocity rescaled
  to length 3. When the magnitude is at most 3 the steered velocity is kept. The new
  position is the old one plus the new velocity times the float nearest to \<open>0.4\<close>, the
  product and the sum rounded.
\<close>

theorem updateFlocking_limits_speed:
  assumes "\<bar>vec_x (steered_velocity this i fl tp cp ac ms)\<bar> \<le> 2 ^ 60"
    and "\<bar>vec_y (steered_velocity this i fl tp cp ac ms)\<bar> \<le> 2 ^ 60"
  shows "exact_length (velocity (updateFlocking this i fl tp cp ac ms)) \<le> 3 + 1 / 50000 \<and>
   magnitude (velocity (updateFlocking this i fl tp cp ac ms)) \<le> 3 + 1 / 50000 \<and>
   (magnitude (steered_velocity this i fl tp cp ac ms) > 3 \<longrightarrow>
      velocity (updateFlocking this i fl tp cp ac ms) =
        vec_mul (normalize (steered_velocity this i fl tp cp ac ms)) 3 \<and>
      \<bar>exact_length (velocity (updateFlocking this i fl tp cp ac ms)) - 3\<bar> \<le> 1 / 125000 \<and>
      \<bar>vec_x (velocity (updateFlocking this i fl tp cp ac ms)) -
         3 * vec_x (steered_velocity this i fl tp cp ac ms) /
           exact_length (steered_velocity this i fl tp cp ac ms)\<bar> \<le> 1 / 250000 \<and>
      \<bar>vec_y (velocity (updateFlocking this i fl tp cp ac ms)) -
         3 * vec_y (steered_velocity this i fl tp cp ac ms) /
           exact_length (steered_velocity this i fl tp cp ac ms)\<bar> \<le> 1 / 250000) \<and>
   (magnitude (steered_velocity this i fl tp cp ac ms) \<le> 3 \<longrightarrow>
      velocity (updateFlocking this i fl tp cp ac ms) =
        steered_velocity this i fl tp cp ac ms) \<and>
   position (updateFlocking this i fl tp cp ac ms) =
     vec_add (position this)
       (vec_mul (velocity (updateFlocking this i fl tp cp ac ms)) (f32 0.4))"
proof (cases "magnitude (steered_velocity this i fl tp cp ac ms) > 3")
  case True
  note o = limit_velocity_over [OF True]
  have "exact_length (limit_velocity (steered_velocity this i fl tp cp ac ms)) \<le> 3 + 1 / 50000"
    using o(4) by linarith
  with True o show ?thesis
    unfolding updateFlocking_fields(1) updateFlocking_fields(2) by simp
next
  case False
  then have u: "magnitude (steered_velocity this i fl tp cp ac ms) \<le> 3" by simp
  note l = limit_velocity_under [OF u]
  have "magnitude (steered_velocity this i fl tp cp ac ms) \<le> 3 + 1 / 50000"
    using u by linarith
  with False u l show ?thesis
    unfolding updateFlocking_fields(1) updateFlocking_fields(2) by simp
qed

text \<open>The same bird \<open>glider\<close> at millisecond 0: its steered velocity is above the limit.\<close>

theorem updateFlocking_limits_speed_witness:
  "steered_velocity glider 0 [glider] {||} {||} None 0 = Vector2D 3 (16106127 / 536870912) \<and>
   3 < magnitude (steered_velocity glider 0 [glider] {||} {||} None 0) \<and>
   exact_length (velocity (updateFlocking glider 0 [glider] {||} {||} None 0)) \<le> 3 + 1 / 50000 \<and>
   magnitude (velocity (updateFlocking glider 0 [glider] {||} {||} None 0)) \<le> 3 + 1 / 50000 \<and>
   \<bar>exact_length (velocity (updateFlocking glider 0 [glider] {||} {||} None 0)) - 3\<bar>
     \<le> 1 / 125000 \<and>
   velocity (updateFlocking glider 0 [glider] {||} {||} None 0) =
     vec_mul (normalize (steered_velocity glider 0 [glider] {||} {||} None 0)) 3 \<and>
   position (updateFlocking glider 0 [glider] {||} {||} None 0) =
     vec_add (Vector2D 5 5)
       (vec_mul (velocity (updateFlocking glider 0 [glider] {||} {||} None 0)) (f32 0.4))"
proof -
  note t = updateFlocking_limits_speed [of glider 0 "[glider]" "{||}" "{||}" None 0]
  have s: "steered_velocity glider 0 [glider] {||} {||} None 0 =
      Vector2D 3 (16106127 / 536870912)"
    by (rule glider_steered)
  have h: "\<bar>vec_x (steered_velocity glider 0 [glider] {||} {||} None 0)\<bar> \<le> 2 ^ 60"
    "\<bar>vec_y (steered_velocity glider 0 [glider] {||} {||} None 0)\<bar> \<le> 2 ^ 60"
    by (simp_all add: s)
  have m: "3 < magnitude (steered_velocity glider 0 [glider] {||} {||} None 0)"
    by (simp add: s glider_magnitude)
  have p: "position glider = Vector2D 5 5"
    by (simp add: glider_def)
  from t [OF h, unfolded p] m s show ?thesis
    by blast
qed
section \<open>Completion\<close>

lemma spawn_wave_completionTime:
  "spawn_wave t s = Some s' \<Longrightarrow> completionTime s' = completionTime s"
  by (auto simp: spawn_wave_def Let_def split: if_splits option.splits prod.splits)

lemma flocking_completionTime:
  "flocking c s = Some s' \<Longrightarrow> completionTime s' = completionTime s"
  by (auto simp: flocking_def Let_def split: option.splits dest: spawn_wave_completionTime)

lemma note_completion_completionTime:
  "completionTime (note_completion t s) =
     (if textComplete s \<and> completionTime s = 0 then t else completionTime s)"
  by (simp add: note_completion_def textComplete_def Let_def)

lemma loop_completionTime:
  assumes "loop c s = Some s'"
  shows "completionTime s' =
    (if at_start c - lastUpdate s < 50 then completionTime s
     else if textComplete s \<and> completionTime s = 0 then at_start c
     else completionTime s)"
  using loop_cases [OF assms]
  by (auto simp: note_completion_completionTime dest: flocking_completionTime)

lemma loop_frozen:
  assumes "textComplete s" "loop c s = Some s'"
  shows "capturedPixels s' = capturedPixels s \<and> targetPixels s' = targetPixels s \<and>
    flock s' = flock s"
  using loop_cases [OF assms(2)] assms(1) by auto

lemma run_frozen:
  "textComplete s \<Longrightarrow> run cs s = Some s' \<Longrightarrow>
     capturedPixels s' = capturedPixels s \<and> targetPixels s' = targetPixels s \<and> flock s' = flock s"
proof (induction cs arbitrary: s)
  case Nil
  then show ?case by simp
next
  case (Cons c cs)
  from Cons.prems(2) obtain s1 where s1: "loop c s = Some s1" and r: "run cs s1 = Some s'"
    by (auto split: option.splits)
  have f: "capturedPixels s1 = capturedPixels s \<and> targetPixels s1 = targetPixels s \<and>
      flock s1 = flock s"
    using Cons.prems(1) s1 by (rule loop_frozen)
  then have "textComplete s1"
    using Cons.prems(1) by (simp add: textComplete_def)
  from Cons.IH [OF this r] f show ?case by simp
qed

lemma run_completionTime_kept:
  "completionTime s \<noteq> 0 \<Longrightarrow> run cs s = Some s' \<Longrightarrow> completionTime s' = completionTime s"
proof (induction cs arbitrary: s)
  case Nil
  then show ?case by simp
next
  case (Cons c cs)
  from Cons.prems(2) obtain s1 where s1: "loop c s = Some s1" and r: "run cs s1 = Some s'"
    by (auto split: option.splits)
  have k: "completionTime s1 = completionTime s"
    using loop_completionTime [OF s1] Cons.prems(1) by simp
  with Cons.prems(1) have "completionTime s1 \<noteq> 0" by simp
  from Cons.IH [OF this r] k show ?case by simp
qed

lemma ungated_reading_nonzero:
  fixes now last :: "32 word"
  assumes "\<not> now - last < 50" "last \<le> now"
  shows "now \<noteq> 0"
proof
  assume "now = 0"
  with assms(2) have "last = 0" by simp
  with \<open>now = 0\<close> assms(1) show False by simp
qed

text \<open>
  Claim C2. Once the captured set has the size of the target mask, no later call of
  \<open>loop\<close> changes the captured set (or the flock). A completion time that is set (not 0)
  is never changed by any later call. It is set by the first call that passes the
  50 ms gate after completion, to that call's clock reading, and keeps this value through
  every later call when the reading is not 0 (0 stands for "not set"); a reading that
  passes the gate is not 0 unless the 32-bit clock has wrapped around since the last
  update, which a monotonic clock never does. While the text is incomplete the
  completion time stays unset.
\<close>

theorem completion_time_latched:
  "(textComplete s \<and> run cs s = Some s' \<longrightarrow>
      capturedPixels s' = capturedPixels s \<and> flock s' = flock s \<and> textComplete s') \<and>
   (completionTime s \<noteq> 0 \<and> run cs s = Some s' \<longrightarrow> completionTime s' = completionTime s) \<and>
   (textComplete s \<and> completionTime s = 0 \<and> \<not> at_start c - lastUpdate s < 50 \<and>
    at_start c \<noteq> 0 \<and> run (c # cs) s = Some s' \<longrightarrow> completionTime s' = at_start c) \<and>
   (\<not> at_start c - lastUpdate s < 50 \<and> lastUpdate s \<le> at_start c \<longrightarrow> at_start c \<noteq> 0) \<and>
   (\<not> textComplete s \<and> completionTime s = 0 \<and> loop c s = Some s' \<longrightarrow> completionTime s' = 0)"
proof -
  have a: "capturedPixels s' = capturedPixels s \<and> flock s' = flock s \<and> textComplete s'"
    if "textComplete s" "run cs s = Some s'"
    using run_frozen [OF that] that(1) by (simp add: textComplete_def)
  have b: "completionTime s' = completionTime s"
    if "completionTime s \<noteq> 0" "run cs s = Some s'"
    using that by (rule run_completionTime_kept)
  have c: "completionTime s' = at_start c"
    if h: "textComplete s" "completionTime s = 0" "\<not> at_start c - lastUpdate s < 50"
      "at_start c \<noteq> 0" "run (c # cs) s = Some s'"
  proof -
    from h(5) obtain s1 where s1: "loop c s = Some s1" and r: "run cs s1 = Some s'"
      by (auto split: option.splits)
    have "completionTime s1 = at_start c"
      using loop_completionTime [OF s1] h(1-3) by simp
    with h(4) run_completionTime_kept [OF _ r] show ?thesis by simp
  qed
  have n: "at_start c \<noteq> 0"
    if "\<not> at_start c - lastUpdate s < 50" "lastUpdate s \<le> at_start c"
    using that by (rule ungated_reading_nonzero)
  have d: "completionTime s' = 0"
    if "\<not> textComplete s" "completionTime s = 0" "loop c s = Some s'"
    using loop_completionTime [OF that(3)] that(1,2) by simp
  from a b c n d show ?thesis by blast
qed

text \<open>
  Three calls on a complete state, at 100, 200 and 1100 ms: the completion time is 100
  after all of them and the captured set is the same.
\<close>

theorem completion_time_latched_witness:
  "textComplete finished \<and> completionTime finished = 0 \<and>
   run [tick 100, tick 200, tick 1100] finished \<noteq> None \<and>
   completionTime (the (run [tick 100, tick 200, tick 1100] finished)) = 100 \<and>
   capturedPixels (the (run [tick 100, tick 200, tick 1100] finished)) = {|Position 5 5|}"
proof -
  have tc: "textComplete finished"
    by (simp add: textComplete_def finished_def)
  have ct: "completionTime finished = 0"
    by (simp add: finished_def)
  have g: "\<not> at_start (tick 100) - lastUpdate finished < 50"
    "at_start (tick 100) \<noteq> 0" "at_start (tick 100) = 100"
    by (simp_all add: tick_def finished_def)
  have "well_formed finished"
    by (simp add: well_formed_def finished_def numDirections_def)
  then obtain s' where r: "run (tick 100 # [tick 200, tick 1100]) finished = Some s'"
    using run_defined by blast
  note t = completion_time_latched [of finished "[tick 200, tick 1100]" s' "tick 100"]
  have "completionTime s' = 100"
    using t tc ct g r by simp
  moreover have "capturedPixels s' = capturedPixels finished"
    using completion_time_latched [of finished "tick 100 # [tick 200, tick 1100]" s'] tc r
    by simp
  ultimately show ?thesis
    using tc ct r by (simp add: finished_def)
qed

end
